theory Spec2Isabelle
  imports Main "HOL-Library.Word"
begin

section \<open>Data model\<close>

text \<open>
  The endpoint repository of \<^verbatim>\<open>src/server/storage/providers/sqlite/repositories/endpoint.go\<close>.
  Go strings are byte sequences (\<open>string\<close>), \<^verbatim>\<open>uint64\<close> is \<open>64 word\<close>, a nil pointer is
  \<open>None\<close>.
\<close>

type_synonym uint64 = "64 word"

text \<open>
  Modelled from the spec: the struct \<^verbatim>\<open>notification.Endpoint\<close> is declared outside the given
  sources. Section 3 of the specification gives its fields: an unsigned identifier (0 means not
  yet persisted), name, target URL, HTTP method token and the headers in their serialized
  scalar form.
\<close>

record Endpoint =
  Id :: uint64
  Name :: string
  Url :: string
  Method :: string
  Headers :: string

text \<open>
  Modelled from the spec: the struct \<^verbatim>\<open>storage.EndpointQuery\<close> is declared outside the given
  sources. Section 6 of the specification gives the filter input surface: name (string), take
  (integer, \<open>\<le> 0\<close> means unbounded), skip (integer offset). The field \<^verbatim>\<open>Name\<close> is called
  \<open>QName\<close> here, since a record field is a global constant.
\<close>

record EndpointQuery =
  QName :: string
  Take :: int
  Skip :: int

record SQLiteEndpointRepository =
  tableName :: string

text \<open>
  A value passed for a \<^verbatim>\<open>?\<close> placeholder, or held in a column of a result row. \<open>VUint\<close> is
  a Go \<^verbatim>\<open>uint64\<close> as the repository passes its identifiers; the columns of a row hold \<open>VInt\<close>
  and \<open>VText\<close> only.
\<close>

datatype sqlval = VInt int | VText string | VUint uint64

section \<open>Statement templates\<close>

text \<open>
  The constants of the source with their \<^verbatim>\<open>%s\<close> placeholders; \<^verbatim>\<open>fmt.Sprintf(c, a)\<close> is the
  template applied to its arguments.
\<close>

definition endpointSelectQuery :: "string \<Rightarrow> string" where
  "endpointSelectQuery t = ''SELECT id, name, url, method, headers FROM '' @ t"

definition endpointInsertQuery :: "string \<Rightarrow> string \<Rightarrow> string" where
  "endpointInsertQuery t v = ''INSERT INTO '' @ t @ '' (name, url, method, headers) VALUES '' @ v"

definition endpointInsertValuesQuery :: string where
  "endpointInsertValuesQuery = ''(?, ?, ?, ?)''"

definition endpointUpdateQuery :: "string \<Rightarrow> string" where
  "endpointUpdateQuery t = ''UPDATE '' @ t @ '' SET name=?, url=?, method=?, headers=? WHERE id=?''"

definition endpointDeleteQuery :: "string \<Rightarrow> string" where
  "endpointDeleteQuery t = ''DELETE FROM '' @ t"

definition endpointCountQuery :: "string \<Rightarrow> string" where
  "endpointCountQuery t = ''SELECT COUNT(id) from '' @ t"

section \<open>The functions of Go's \<^verbatim>\<open>strings\<close> package that \<^verbatim>\<open>Find\<close> calls\<close>

definition HasPrefix :: "string \<Rightarrow> string \<Rightarrow> bool" where
  "HasPrefix s p = (length p \<le> length s \<and> take (length p) s = p)"

definition HasSuffix :: "string \<Rightarrow> string \<Rightarrow> bool" where
  "HasSuffix s p = (length p \<le> length s \<and> drop (length s - length p) s = p)"

text \<open>
  \<^verbatim>\<open>strings.Replace(s, old, new, -1)\<close> for a one-byte \<^verbatim>\<open>old\<close>: every occurrence of the byte is
  replaced.
\<close>

definition ReplaceAll :: "string \<Rightarrow> char \<Rightarrow> string \<Rightarrow> string" where
  "ReplaceAll s old new = concat (map (\<lambda>c. if c = old then new else [c]) s)"

section \<open>The statement compiled by \<^verbatim>\<open>Find\<close>\<close>

text \<open>
  Lines 59 to 99 of \<^verbatim>\<open>Find\<close>: the statement text \<^verbatim>\<open>findQuery\<close> and the bound arguments
  \<^verbatim>\<open>args\<close>, built from the optional filter. \<open>Find_name_arg\<close> is the value of \<^verbatim>\<open>arg\<close> that
  lines 66 to 79 compute from a non-empty name; \<open>Find_name_clause\<close> is the text that lines 81
  and 83 append after \<^verbatim>\<open>" WHERE"\<close>, under the same test of line 70.
\<close>

definition Find_name_arg :: "string \<Rightarrow> string" where
  "Find_name_arg name =
     (let startsWith = HasPrefix name ''*'';
          endsWith = HasSuffix name ''*'';
          arg = name
      in if startsWith \<or> endsWith then
           (let arg = ReplaceAll arg (CHR ''*'') ''''
            in if startsWith \<and> endsWith then ''%'' @ arg @ ''%''
               else if endsWith then arg @ ''%''
               else ''%'' @ arg)
         else arg)"

definition Find_name_clause :: "string \<Rightarrow> string" where
  "Find_name_clause name =
     (if HasPrefix name ''*'' \<or> HasSuffix name ''*'' then '' name LIKE ?'' else '' name = ?'')"

definition Find_compile :: "SQLiteEndpointRepository \<Rightarrow> EndpointQuery option \<Rightarrow> string \<times> sqlval list" where
  "Find_compile r query =
     (let args = [];
          findQuery = endpointSelectQuery (tableName r)
      in case query of
           None \<Rightarrow> (findQuery @ '' ORDER BY id'', args)
         | Some q \<Rightarrow>
             (let (findQuery, args) =
                    (if QName q \<noteq> ''''
                     then (findQuery @ '' WHERE'' @ Find_name_clause (QName q),
                           args @ [VText (Find_name_arg (QName q))])
                     else (findQuery, args));
                  findQuery = findQuery @ '' ORDER BY id''
              in if Take q > 0
                 then (findQuery @ '' LIMIT ? OFFSET ?'', args @ [VInt (Take q), VInt (Skip q)])
                 else (findQuery, args)))"

section \<open>The store\<close>

text \<open>
  The repository talks to SQLite through Go's \<^verbatim>\<open>database/sql\<close>. Neither belongs to the
  repository; this section is a model of the part of them that the repository uses: one table
  with an integer primary key, transactions, prepared statements, and the statements that the
  repository issues, with the meaning SQL gives them. What the model leaves out is said where
  it is left out.
\<close>

record row =
  rid :: int
  rname :: string
  rurl :: string
  rmethod :: string
  rheaders :: string

datatype error =
    InvalidArgument string       \<comment> \<open>\<^verbatim>\<open>errors.New(msg)\<close> of the argument checks\<close>
  | StoreFailure string          \<comment> \<open>an error reported by a call into the store\<close>
  | NotFound                     \<comment> \<open>\<^verbatim>\<open>sql.ErrNoRows\<close>: the single-row lookup matched no row\<close>
  | ErrTxDone                    \<comment> \<open>\<^verbatim>\<open>sql.ErrTxDone\<close>: the transaction is already resolved\<close>
  | ErrStmtClosed                \<comment> \<open>the statement handle is closed\<close>
  | ArgumentRefused              \<comment> \<open>\<^verbatim>\<open>database/sql\<close> could not convert an argument for the driver\<close>
  | ScanError                    \<comment> \<open>a result row does not have the shape of the entity\<close>
  | RollbackFailure error error  \<comment> \<open>the rollback failure, wrapped around the original cause\<close>
  | NilDereference               \<comment> \<open>the run-time panic of a field access through a nil pointer\<close>

subsection \<open>Statements\<close>

datatype cond = AllRows | NameLike | NameEq | IdEq

datatype window = Unbounded | LimitOne | LimitOffset

datatype sql =
    Select cond bool window   \<comment> \<open>condition, \<^verbatim>\<open>ORDER BY id\<close> present, window\<close>
  | CountRows
  | InsertRow
  | UpdateById
  | DeleteById
  | DeleteIn "int list"

text \<open>\<open>chop p s\<close> removes the prefix \<open>p\<close> from \<open>s\<close>.\<close>

fun chop :: "string \<Rightarrow> string \<Rightarrow> string option" where
  "chop [] s = Some s"
| "chop (p # ps) [] = None"
| "chop (p # ps) (c # cs) = (if p = c then chop ps cs else None)"

definition parse_where :: "string \<Rightarrow> cond \<times> string" where
  "parse_where s =
     (case chop '' WHERE name LIKE ?'' s of Some t \<Rightarrow> (NameLike, t) | None \<Rightarrow>
     (case chop '' WHERE name = ?'' s of Some t \<Rightarrow> (NameEq, t) | None \<Rightarrow>
     (case chop '' WHERE id=?'' s of Some t \<Rightarrow> (IdEq, t) | None \<Rightarrow> (AllRows, s))))"

definition parse_order :: "string \<Rightarrow> bool \<times> string" where
  "parse_order s = (case chop '' ORDER BY id'' s of Some t \<Rightarrow> (True, t) | None \<Rightarrow> (False, s))"

definition parse_window :: "string \<Rightarrow> window option" where
  "parse_window s =
     (if s = [] then Some Unbounded
      else if s = '' LIMIT 1'' then Some LimitOne
      else if s = '' LIMIT ? OFFSET ?'' then Some LimitOffset
      else None)"

definition parse_select_tail :: "string \<Rightarrow> sql option" where
  "parse_select_tail s =
     (case parse_where s of (c, s1) \<Rightarrow>
        (case parse_order s1 of (ord, s2) \<Rightarrow> map_option (Select c ord) (parse_window s2)))"

text \<open>Decimal integer literals, and the list of an \<^verbatim>\<open>IN (...)\<close> with its items separated by
  a comma and a space.\<close>

definition digit_val :: "char \<Rightarrow> nat option" where
  "digit_val c = (let n = (of_char c :: nat) in if 48 \<le> n \<and> n \<le> 57 then Some (n - 48) else None)"

fun parse_digits :: "nat \<Rightarrow> string \<Rightarrow> nat option" where
  "parse_digits a [] = Some a"
| "parse_digits a (c # cs) =
     (case digit_val c of None \<Rightarrow> None | Some d \<Rightarrow> parse_digits (10 * a + d) cs)"

definition parse_nat :: "string \<Rightarrow> nat option" where
  "parse_nat s = (if s = [] then None else parse_digits 0 s)"

fun split_items :: "string \<Rightarrow> string \<Rightarrow> string list" where
  "split_items acc [] = [acc]"
| "split_items acc [c] = [acc @ [c]]"
| "split_items acc (c # d # s) =
     (if c = CHR '','' \<and> d = CHR '' '' then acc # split_items [] s
      else split_items (acc @ [c]) (d # s))"

fun parse_items :: "string list \<Rightarrow> int list option" where
  "parse_items [] = Some []"
| "parse_items (x # xs) =
     (case parse_nat x of None \<Rightarrow> None
      | Some n \<Rightarrow> (case parse_items xs of None \<Rightarrow> None | Some ns \<Rightarrow> Some (int n # ns)))"

definition parse_id_list :: "string \<Rightarrow> int list option" where
  "parse_id_list s = parse_items (split_items [] s)"

text \<open>
  The statements of the table \<open>t\<close> that the store accepts: the shapes the repository issues.
  Any other text is a syntax error.
\<close>

definition parse_delete_tail :: "string \<Rightarrow> sql option" where
  "parse_delete_tail s =
     (if s = '' WHERE id=?'' then Some DeleteById
      else (case chop '' WHERE id IN ('' s of
              None \<Rightarrow> None
            | Some l \<Rightarrow>
                if l \<noteq> [] \<and> last l = CHR '')''
                then map_option DeleteIn (parse_id_list (butlast l)) else None))"

definition parse_sql :: "string \<Rightarrow> string \<Rightarrow> sql option" where
  "parse_sql t q =
     (case chop ''SELECT id, name, url, method, headers FROM '' q of
        Some s \<Rightarrow> (case chop t s of Some tail \<Rightarrow> parse_select_tail tail | None \<Rightarrow> None)
      | None \<Rightarrow>
     (case chop ''SELECT COUNT(id) from '' q of
        Some s \<Rightarrow> (if s = t then Some CountRows else None)
      | None \<Rightarrow>
     (case chop ''INSERT INTO '' q of
        Some s \<Rightarrow>
          (if chop t s = Some '' (name, url, method, headers) VALUES (?, ?, ?, ?)''
           then Some InsertRow else None)
      | None \<Rightarrow>
     (case chop ''UPDATE '' q of
        Some s \<Rightarrow>
          (if chop t s = Some '' SET name=?, url=?, method=?, headers=? WHERE id=?''
           then Some UpdateById else None)
      | None \<Rightarrow>
     (case chop ''DELETE FROM '' q of
        Some s \<Rightarrow> (case chop t s of Some tail \<Rightarrow> parse_delete_tail tail | None \<Rightarrow> None)
      | None \<Rightarrow> None)))))"

subsection \<open>The meaning of the statements\<close>

text \<open>
  The \<^verbatim>\<open>LIKE\<close> operator is a parameter of the store (\<open>like_op\<close> below, pattern first): the
  model does not fix what it does on arbitrary bytes. \<open>like_ascii\<close> is what SQLite's \<^verbatim>\<open>LIKE\<close>
  does, in its default configuration, on ASCII text, that is on bytes from 1 to 127: \<^verbatim>\<open>%\<close>
  matches any sequence of characters, \<^verbatim>\<open>_\<close> any one character, and any other character matches
  itself, letters without regard to case; there is no escape character, as the statements of
  the repository have no \<^verbatim>\<open>ESCAPE\<close> clause. It says nothing of a NUL byte, of bytes above 127,
  or of a pattern longer than SQLite's limit; \<open>sqlite_like\<close> below is the assumption that ties
  \<open>like_op\<close> to it on ASCII text, for the statements that need it.
\<close>

definition ascii_lower :: "char \<Rightarrow> char" where
  "ascii_lower c = (let n = (of_char c :: nat) in if 65 \<le> n \<and> n \<le> 90 then char_of (n + 32) else c)"

definition like_eq :: "char \<Rightarrow> char \<Rightarrow> bool" where
  "like_eq c d = (ascii_lower c = ascii_lower d)"

fun like_ascii :: "string \<Rightarrow> string \<Rightarrow> bool" where
  "like_ascii [] s = (s = [])"
| "like_ascii (p # ps) [] = (p = CHR ''%'' \<and> like_ascii ps [])"
| "like_ascii (p # ps) (c # cs) =
     (if p = CHR ''%'' then like_ascii ps (c # cs) \<or> like_ascii (p # ps) cs
      else (p = CHR ''_'' \<or> like_eq p c) \<and> like_ascii ps cs)"

definition row_values :: "row \<Rightarrow> sqlval list" where
  "row_values r = [VInt (rid r), VText (rname r), VText (rurl r), VText (rmethod r), VText (rheaders r)]"

text \<open>The condition of a statement, bound to its argument; \<open>lk\<close> is the \<^verbatim>\<open>LIKE\<close> operator.\<close>

fun bind_cond ::
  "(string \<Rightarrow> string \<Rightarrow> bool) \<Rightarrow> cond \<Rightarrow> sqlval list \<Rightarrow> ((row \<Rightarrow> bool) \<times> sqlval list) option" where
  "bind_cond lk AllRows args = Some (\<lambda>_. True, args)"
| "bind_cond lk NameLike (VText p # args) = Some (\<lambda>r. lk p (rname r), args)"
| "bind_cond lk NameEq (VText p # args) = Some (\<lambda>r. rname r = p, args)"
| "bind_cond lk IdEq (VInt i # args) = Some (\<lambda>r. rid r = i, args)"
| "bind_cond lk _ _ = None"

text \<open>A negative \<^verbatim>\<open>LIMIT\<close> is no limit and a negative \<^verbatim>\<open>OFFSET\<close> is 0, as in SQLite.\<close>

fun bind_window :: "window \<Rightarrow> sqlval list \<Rightarrow> (row list \<Rightarrow> row list) option" where
  "bind_window Unbounded [] = Some (\<lambda>rs. rs)"
| "bind_window LimitOne [] = Some (take 1)"
| "bind_window LimitOffset [VInt n, VInt m] =
     Some (\<lambda>rs. if n < 0 then drop (nat m) rs else take (nat n) (drop (nat m) rs))"
| "bind_window _ _ = None"

text \<open>
  A query over the rows \<open>rs\<close>, kept in no particular order: \<^verbatim>\<open>ORDER BY id\<close> sorts them by
  identifier.
\<close>

definition run_query ::
  "(string \<Rightarrow> string \<Rightarrow> bool) \<Rightarrow> sql \<Rightarrow> sqlval list \<Rightarrow> row list \<Rightarrow> error + sqlval list list" where
  "run_query lk q args rs =
     (case q of
        Select c ord w \<Rightarrow>
          (case bind_cond lk c args of
             None \<Rightarrow> Inl (StoreFailure ''wrong arguments'')
           | Some (p, rest) \<Rightarrow>
               (case bind_window w rest of
                  None \<Rightarrow> Inl (StoreFailure ''wrong arguments'')
                | Some win \<Rightarrow>
                    Inr (map row_values (win ((if ord then sort_key rid else (\<lambda>x. x)) (filter p rs))))))
      | CountRows \<Rightarrow>
          (if args = [] then Inr [[VInt (int (length rs))]] else Inl (StoreFailure ''wrong arguments''))
      | _ \<Rightarrow> Inl (StoreFailure ''not a query''))"

text \<open>
  The identifier of a new row is one more than the largest in use, 1 in an empty table. Past
  the largest 64-bit identifier SQLite tries random ones; the model reports the table full.
\<close>

definition max_rowid :: int where
  "max_rowid = 2 ^ 63 - 1"

definition next_rowid :: "row list \<Rightarrow> int" where
  "next_rowid rs = (if rs = [] then 1 else Max (set (map rid rs)) + 1)"

fun the_text :: "sqlval \<Rightarrow> string option" where
  "the_text (VText s) = Some s"
| "the_text (VInt i) = None"
| "the_text (VUint w) = None"

fun the_int :: "sqlval \<Rightarrow> int option" where
  "the_int (VInt i) = Some i"
| "the_int (VText s) = None"
| "the_int (VUint w) = None"

text \<open>The result of an execution: the last inserted identifier and the number of rows
  affected.\<close>

type_synonym exec_result = "int \<times> nat"

definition set_fields :: "string \<Rightarrow> string \<Rightarrow> string \<Rightarrow> string \<Rightarrow> row \<Rightarrow> row" where
  "set_fields n u m h r = r\<lparr>rname := n, rurl := u, rmethod := m, rheaders := h\<rparr>"

definition run_exec :: "sql \<Rightarrow> sqlval list \<Rightarrow> row list \<Rightarrow> error + (exec_result \<times> row list)" where
  "run_exec q args rs =
     (case q of
        InsertRow \<Rightarrow>
          (case map the_text args of
             [Some n, Some u, Some m, Some h] \<Rightarrow>
               (let i = next_rowid rs
                in if i > max_rowid then Inl (StoreFailure ''database or disk is full'')
                   else Inr ((i, 1), rs @ [\<lparr>rid = i, rname = n, rurl = u, rmethod = m, rheaders = h\<rparr>]))
           | _ \<Rightarrow> Inl (StoreFailure ''wrong arguments''))
      | UpdateById \<Rightarrow>
          (case (map the_text (take 4 args), map the_int (drop 4 args)) of
             ([Some n, Some u, Some m, Some h], [Some i]) \<Rightarrow>
               Inr ((0, length (filter (\<lambda>r. rid r = i) rs)),
                    map (\<lambda>r. if rid r = i then set_fields n u m h r else r) rs)
           | _ \<Rightarrow> Inl (StoreFailure ''wrong arguments''))
      | DeleteById \<Rightarrow>
          (case map the_int args of
             [Some i] \<Rightarrow>
               Inr ((0, length (filter (\<lambda>r. rid r = i) rs)), filter (\<lambda>r. rid r \<noteq> i) rs)
           | _ \<Rightarrow> Inl (StoreFailure ''wrong arguments''))
      | DeleteIn ids \<Rightarrow>
          (if args = []
           then Inr ((0, length (filter (\<lambda>r. rid r \<in> set ids) rs)), filter (\<lambda>r. rid r \<notin> set ids) rs)
           else Inl (StoreFailure ''wrong arguments''))
      | _ \<Rightarrow> Inl (StoreFailure ''not an update''))"

subsection \<open>Connections, transactions and statement handles\<close>

text \<open>
  The calls into the store that can fail for reasons of the store's own (connection lost,
  constraint violated, disk full, a pattern that \<^verbatim>\<open>LIKE\<close> refuses as too long). \<open>faults\<close> says
  which of them fail, and with what message; a property proved for every store holds for every
  such failure.
\<close>

datatype call = CallBegin | CallPrepare | CallExec | CallQuery | CallLastInsertId | CallCommit | CallRollback

datatype event =
    EvBegin nat
  | EvCommit nat
  | EvRollback nat
  | EvPrepare nat string
  | EvExec nat "sqlval list"
  | EvQuery nat "sqlval list"
  | EvClose nat

text \<open>
  \<open>table\<close> holds the committed rows. An open transaction works on its own copy of the rows,
  taken when it begins and written back when it commits; the specification has one writer at a
  time, and the model does not arbitrate between concurrent writers. A statement handle belongs
  to the connection pool (\<open>None\<close>) or to a transaction. \<open>events\<close> records the calls made, with
  the arguments as the repository passed them. \<open>like_op\<close> is the \<^verbatim>\<open>LIKE\<close> operator of the store,
  applied to a pattern and a name.
\<close>

record store =
  table :: "row list"
  txs :: "nat \<rightharpoonup> row list"
  stmts :: "(nat \<times> sql \<times> nat option) list"
  next_handle :: nat
  events :: "event list"
  faults :: "call \<Rightarrow> string option"
  like_op :: "string \<Rightarrow> string \<Rightarrow> bool"

text \<open>
  Before a statement runs, \<^verbatim>\<open>database/sql\<close> converts its arguments to values of the driver.
  A string and a signed integer pass as they are; a \<^verbatim>\<open>uint64\<close> becomes a signed 64-bit integer,
  and one with the high bit set is refused: the call returns an error and the statement does
  not run.
\<close>

fun driver_value :: "sqlval \<Rightarrow> sqlval option" where
  "driver_value (VUint w) = (if uint w < 2 ^ 63 then Some (VInt (uint w)) else None)"
| "driver_value (VInt i) = Some (VInt i)"
| "driver_value (VText s) = Some (VText s)"

fun driver_args :: "sqlval list \<Rightarrow> sqlval list option" where
  "driver_args [] = Some []"
| "driver_args (a # as) =
     (case driver_value a of
        None \<Rightarrow> None
      | Some v \<Rightarrow> (case driver_args as of None \<Rightarrow> None | Some vs \<Rightarrow> Some (v # vs)))"

definition db_begin :: "store \<Rightarrow> (error + nat) \<times> store" where
  "db_begin s =
     (case faults s CallBegin of
        Some m \<Rightarrow> (Inl (StoreFailure m), s)
      | None \<Rightarrow>
          (let t = next_handle s
           in (Inr t, s\<lparr>txs := (txs s)(t \<mapsto> table s), next_handle := Suc t,
                        events := events s @ [EvBegin t]\<rparr>)))"

text \<open>Resolving a transaction closes the statements prepared on it, as \<^verbatim>\<open>database/sql\<close> does.\<close>

definition close_stmts_of :: "nat \<Rightarrow> store \<Rightarrow> store" where
  "close_stmts_of t s =
     s\<lparr>stmts := filter (\<lambda>(k, q, ow). ow \<noteq> Some t) (stmts s),
       events := events s @ map (\<lambda>(k, q, ow). EvClose k) (filter (\<lambda>(k, q, ow). ow = Some t) (stmts s))\<rparr>"

text \<open>A commit or rollback that the store fails leaves the committed rows as they were; the
  handle is finished all the same.\<close>

definition tx_commit :: "nat \<Rightarrow> store \<Rightarrow> error option \<times> store" where
  "tx_commit t s =
     (case txs s t of
        None \<Rightarrow> (Some ErrTxDone, s)
      | Some w \<Rightarrow>
          (let s1 = close_stmts_of t (s\<lparr>txs := (txs s)(t := None), events := events s @ [EvCommit t]\<rparr>)
           in case faults s CallCommit of
                Some m \<Rightarrow> (Some (StoreFailure m), s1)
              | None \<Rightarrow> (None, s1\<lparr>table := w\<rparr>)))"

definition tx_rollback :: "nat \<Rightarrow> store \<Rightarrow> error option \<times> store" where
  "tx_rollback t s =
     (case txs s t of
        None \<Rightarrow> (Some ErrTxDone, s)
      | Some w \<Rightarrow>
          (let s1 = close_stmts_of t (s\<lparr>txs := (txs s)(t := None), events := events s @ [EvRollback t]\<rparr>)
           in case faults s CallRollback of
                Some m \<Rightarrow> (Some (StoreFailure m), s1)
              | None \<Rightarrow> (None, s1)))"

text \<open>\<^verbatim>\<open>db.Prepare\<close> (owner \<open>None\<close>) and \<^verbatim>\<open>tx.Prepare\<close> (owner \<open>Some t\<close>) on the table \<open>tbl\<close>.\<close>

definition prepare :: "string \<Rightarrow> nat option \<Rightarrow> string \<Rightarrow> store \<Rightarrow> (error + nat) \<times> store" where
  "prepare tbl ow q s =
     (if (case ow of Some t \<Rightarrow> txs s t = None | None \<Rightarrow> False) then (Inl ErrTxDone, s)
      else case faults s CallPrepare of
        Some m \<Rightarrow> (Inl (StoreFailure m), s)
      | None \<Rightarrow>
          (case parse_sql tbl q of
             None \<Rightarrow> (Inl (StoreFailure ''syntax error''), s)
           | Some ast \<Rightarrow>
               (let k = next_handle s
                in (Inr k, s\<lparr>stmts := (k, ast, ow) # stmts s, next_handle := Suc k,
                             events := events s @ [EvPrepare k q]\<rparr>))))"

definition db_prepare :: "string \<Rightarrow> string \<Rightarrow> store \<Rightarrow> (error + nat) \<times> store" where
  "db_prepare tbl q s = prepare tbl None q s"

definition tx_prepare :: "string \<Rightarrow> nat \<Rightarrow> string \<Rightarrow> store \<Rightarrow> (error + nat) \<times> store" where
  "tx_prepare tbl t q s = prepare tbl (Some t) q s"

text \<open>\<^verbatim>\<open>stmt.Exec(args...)\<close>: the arguments are converted first; then, on a statement of a
  transaction it changes the rows of the transaction, and on a statement of the pool it changes
  the committed rows at once.\<close>

definition stmt_exec :: "nat \<Rightarrow> sqlval list \<Rightarrow> store \<Rightarrow> (error + exec_result) \<times> store" where
  "stmt_exec k args s =
     (case map_of (stmts s) k of
        None \<Rightarrow> (Inl ErrStmtClosed, s)
      | Some (q, ow) \<Rightarrow>
          (let s1 = s\<lparr>events := events s @ [EvExec k args]\<rparr>
           in case driver_args args of
                None \<Rightarrow> (Inl ArgumentRefused, s1)
              | Some vs \<Rightarrow>
                  (case faults s CallExec of
                     Some m \<Rightarrow> (Inl (StoreFailure m), s1)
                   | None \<Rightarrow>
                       (case ow of
                          None \<Rightarrow>
                            (case run_exec q vs (table s) of
                               Inl e \<Rightarrow> (Inl e, s1)
                             | Inr (res, rs) \<Rightarrow> (Inr res, s1\<lparr>table := rs\<rparr>))
                        | Some t \<Rightarrow>
                            (case txs s t of
                               None \<Rightarrow> (Inl ErrTxDone, s1)
                             | Some w \<Rightarrow>
                                 (case run_exec q vs w of
                                    Inl e \<Rightarrow> (Inl e, s1)
                                  | Inr (res, rs) \<Rightarrow> (Inr res, s1\<lparr>txs := (txs s)(t \<mapsto> rs)\<rparr>)))))))"

text \<open>\<^verbatim>\<open>res.LastInsertId()\<close>\<close>

definition LastInsertId :: "exec_result \<Rightarrow> store \<Rightarrow> error + int" where
  "LastInsertId res s =
     (case faults s CallLastInsertId of Some m \<Rightarrow> Inl (StoreFailure m) | None \<Rightarrow> Inr (fst res))"

text \<open>\<^verbatim>\<open>stmt.Query(args...)\<close>: the arguments are converted first; the result is the list of
  rows, each a list of column values.\<close>

definition stmt_query :: "nat \<Rightarrow> sqlval list \<Rightarrow> store \<Rightarrow> (error + sqlval list list) \<times> store" where
  "stmt_query k args s =
     (case map_of (stmts s) k of
        None \<Rightarrow> (Inl ErrStmtClosed, s)
      | Some (q, ow) \<Rightarrow>
          (let s1 = s\<lparr>events := events s @ [EvQuery k args]\<rparr>
           in case driver_args args of
                None \<Rightarrow> (Inl ArgumentRefused, s1)
              | Some vs \<Rightarrow>
                  (case faults s CallQuery of
                     Some m \<Rightarrow> (Inl (StoreFailure m), s1)
                   | None \<Rightarrow>
                       (case ow of
                          None \<Rightarrow> (run_query (like_op s) q vs (table s), s1)
                        | Some t \<Rightarrow>
                            (case txs s t of
                               None \<Rightarrow> (Inl ErrTxDone, s1)
                             | Some w \<Rightarrow> (run_query (like_op s) q vs w, s1))))))"

text \<open>\<^verbatim>\<open>stmt.QueryRow(args...)\<close>: the first row of the result, if there is one; its error is
  kept until the row is scanned.\<close>

definition stmt_query_row :: "nat \<Rightarrow> sqlval list \<Rightarrow> store \<Rightarrow> (error + sqlval list option) \<times> store" where
  "stmt_query_row k args s =
     (case stmt_query k args s of
        (Inl e, s1) \<Rightarrow> (Inl e, s1)
      | (Inr rows, s1) \<Rightarrow> (Inr (case rows of [] \<Rightarrow> None | v # _ \<Rightarrow> Some v), s1))"

text \<open>\<^verbatim>\<open>stmt.Close()\<close>; closing a closed statement does nothing.\<close>

definition stmt_close :: "nat \<Rightarrow> store \<Rightarrow> store" where
  "stmt_close k s =
     (case map_of (stmts s) k of
        None \<Rightarrow> s
      | Some _ \<Rightarrow> s\<lparr>stmts := filter (\<lambda>(k', q, ow). k' \<noteq> k) (stmts s), events := events s @ [EvClose k]\<rparr>)"

section \<open>Collaborators of the repository\<close>

subsection \<open>Transaction coordinator\<close>

text \<open>
  The three functions of the package \<^verbatim>\<open>storage\<close> that the mutating operations call are
  outside the given sources; section 4.1 of the specification states their contracts. The
  flag \<open>closeTx\<close> is \<open>True\<close> for "owned".
\<close>

text \<open>
  Modelled from the spec: \<^verbatim>\<open>storage.TryToBegin\<close> is outside the given sources. Section 4.1:
  \<^verbatim>\<open>acquire(existing_handle)\<close> returns a non-null handle unchanged with the flag "borrowed";
  for a null handle it opens a new transaction and returns it with the flag "owned".
\<close>

definition TryToBegin :: "nat option \<Rightarrow> store \<Rightarrow> (error + nat \<times> bool) \<times> store" where
  "TryToBegin tx s =
     (case tx of
        Some t \<Rightarrow> (Inr (t, False), s)
      | None \<Rightarrow>
          (case db_begin s of
             (Inl err, s1) \<Rightarrow> (Inl err, s1)
           | (Inr t, s1) \<Rightarrow> (Inr (t, True), s1)))"

text \<open>
  Modelled from the spec: \<^verbatim>\<open>storage.TryToCommit\<close> is outside the given sources. Section 4.1:
  \<^verbatim>\<open>resolve_commit(handle, owned)\<close> commits the transaction iff \<^verbatim>\<open>owned\<close> is true, and is a
  no-op otherwise.
\<close>

definition TryToCommit :: "nat \<Rightarrow> bool \<Rightarrow> store \<Rightarrow> error option \<times> store" where
  "TryToCommit tx closeTx s = (if closeTx then tx_commit tx s else (None, s))"

text \<open>
  Modelled from the spec: \<^verbatim>\<open>storage.TryToRollback\<close> is outside the given sources. Section
  4.1: \<^verbatim>\<open>resolve_rollback(handle, cause, owned)\<close> rolls back iff \<^verbatim>\<open>owned\<close> is true and always
  hands the cause back; when the rollback itself fails, the rollback failure is wrapped around
  the original cause.
\<close>

definition TryToRollback :: "nat \<Rightarrow> error \<Rightarrow> bool \<Rightarrow> store \<Rightarrow> error \<times> store" where
  "TryToRollback tx cause closeTx s =
     (if closeTx
      then (case tx_rollback tx s of
              (None, s1) \<Rightarrow> (cause, s1)
            | (Some e, s1) \<Rightarrow> (RollbackFailure e cause, s1))
      else (cause, s))"

subsection \<open>Entity mapper\<close>

text \<open>
  Modelled from the spec: the scan of one result row into an entity, part of the package
  \<^verbatim>\<open>mapping\<close>, is outside the given sources. Section 2 of the specification: the mapper
  translates a result row into a typed entity and fails explicitly on a shape mismatch. The
  identifier is read into a \<^verbatim>\<open>uint64\<close>, which a negative column value does not fit.
\<close>

definition scan_endpoint :: "sqlval list \<Rightarrow> error + Endpoint" where
  "scan_endpoint vs =
     (case (map the_int (take 1 vs), map the_text (drop 1 vs)) of
        ([Some i], [Some n, Some u, Some m, Some h]) \<Rightarrow>
          (if 0 \<le> i \<and> i < 2 ^ 64
           then Inr \<lparr>Id = word_of_int i, Name = n, Url = u, Method = m, Headers = h\<rparr>
           else Inl ScanError)
      | _ \<Rightarrow> Inl ScanError)"

text \<open>
  Modelled from the spec: \<^verbatim>\<open>mapping.ToEndpoint\<close> is outside the given sources. Section 4.2:
  \<^verbatim>\<open>Get\<close> fails with \<^verbatim>\<open>NotFound\<close> if zero rows match, and otherwise returns the mapped entity.
\<close>

definition ToEndpoint :: "error + sqlval list option \<Rightarrow> error + Endpoint" where
  "ToEndpoint r =
     (case r of
        Inl e \<Rightarrow> Inl e
      | Inr None \<Rightarrow> Inl NotFound
      | Inr (Some vs) \<Rightarrow> scan_endpoint vs)"

text \<open>
  Modelled from the spec: \<^verbatim>\<open>mapping.ToEndpoints\<close> is outside the given sources. Section 4.2:
  \<^verbatim>\<open>Find\<close> maps every returned row and returns the entities in the order of the rows. The
  second argument is the take-count that \<^verbatim>\<open>Find\<close> passes; the specification gives it no
  effect on the result.
\<close>

fun ToEndpoints :: "sqlval list list \<Rightarrow> int \<Rightarrow> error + Endpoint list" where
  "ToEndpoints [] take_count = Inr []"
| "ToEndpoints (vs # rest) take_count =
     (case scan_endpoint vs of
        Inl e \<Rightarrow> Inl e
      | Inr x \<Rightarrow>
          (case ToEndpoints rest take_count of Inl e \<Rightarrow> Inl e | Inr xs \<Rightarrow> Inr (x # xs)))"

subsection \<open>Joining identifiers\<close>

text \<open>
  Modelled from the spec: the decimal numeral of an unsigned integer, which
  \<^verbatim>\<open>utils.JoinUintSlice\<close> (outside the given sources) puts into the statement text.
\<close>

fun show_nat :: "nat \<Rightarrow> string" where
  "show_nat n =
     (if n < 10 then [char_of (48 + n)] else show_nat (n div 10) @ [char_of (48 + n mod 10)])"

declare show_nat.simps [simp del]

text \<open>
  Modelled from the spec: \<^verbatim>\<open>utils.JoinUintSlice\<close> is outside the given sources. Section 4.2 of
  the specification has \<^verbatim>\<open>DeleteMany\<close> compile one statement that deletes all the identifiers
  of the list: their numerals, joined by the separator.
\<close>

fun JoinUintSlice :: "uint64 list \<Rightarrow> string \<Rightarrow> string" where
  "JoinUintSlice [] sep = []"
| "JoinUintSlice [x] sep = show_nat (unat x)"
| "JoinUintSlice (x # y # ys) sep = show_nat (unat x) @ sep @ JoinUintSlice (y # ys) sep"

section \<open>The repository\<close>

text \<open>
  Each operation takes the store and returns its result with the store it leaves. A
  transaction handle \<^verbatim>\<open>*sql.Tx\<close> is \<open>nat option\<close>, \<open>None\<close> for nil. An operation of the source
  that returns \<^verbatim>\<open>(value, error)\<close> returns \<open>error + value\<close>; one that returns \<^verbatim>\<open>error\<close> returns
  \<open>error option\<close>.
\<close>

definition Get :: "SQLiteEndpointRepository \<Rightarrow> uint64 \<Rightarrow> store \<Rightarrow> (error + Endpoint) \<times> store" where
  "Get r id' s =
     (if id' = 0 then (Inl (InvalidArgument ''id must be greater than 0''), s)
      else
        (case db_prepare (tableName r) (endpointSelectQuery (tableName r) @ '' WHERE id=? LIMIT 1'') s of
           (Inl err, s1) \<Rightarrow> (Inl err, s1)
         | (Inr stmt, s1) \<Rightarrow>
             (case stmt_query_row stmt [VUint id'] s1 of
                (row, s2) \<Rightarrow> (ToEndpoint row, stmt_close stmt s2))))"

text \<open>
  \<^verbatim>\<open>Find\<close>. The last line of the source reads \<^verbatim>\<open>query.Take\<close> whether or not \<^verbatim>\<open>query\<close> is nil;
  through a nil pointer that is a run-time panic, during which the deferred \<^verbatim>\<open>stmt.Close()\<close>
  still runs. The \<^verbatim>\<open>fmt.Println\<close> of the statement text has no effect on the store.
\<close>

definition Find :: "SQLiteEndpointRepository \<Rightarrow> EndpointQuery option \<Rightarrow> store \<Rightarrow> (error + Endpoint list) \<times> store" where
  "Find r query s =
     (case Find_compile r query of
        (findQuery, args) \<Rightarrow>
          (case db_prepare (tableName r) findQuery s of
             (Inl err, s1) \<Rightarrow> (Inl err, s1)
           | (Inr stmt, s1) \<Rightarrow>
               (case stmt_query stmt args s1 of
                  (Inl err, s2) \<Rightarrow> (Inl err, stmt_close stmt s2)
                | (Inr rows, s2) \<Rightarrow>
                    (case query of
                       None \<Rightarrow> (Inl NilDereference, stmt_close stmt s2)
                     | Some q \<Rightarrow> (ToEndpoints rows (Take q), stmt_close stmt s2)))))"

text \<open>\<^verbatim>\<open>row.Scan(&count)\<close> into a \<^verbatim>\<open>uint64\<close>.\<close>

definition scan_count :: "error + sqlval list option \<Rightarrow> error + uint64" where
  "scan_count r =
     (case r of
        Inl e \<Rightarrow> Inl e
      | Inr None \<Rightarrow> Inl NotFound
      | Inr (Some vs) \<Rightarrow>
          (case map the_int vs of
             [Some n] \<Rightarrow> (if 0 \<le> n \<and> n < 2 ^ 64 then Inr (word_of_int n) else Inl ScanError)
           | _ \<Rightarrow> Inl ScanError))"

definition Count :: "SQLiteEndpointRepository \<Rightarrow> store \<Rightarrow> (error + uint64) \<times> store" where
  "Count r s =
     (case db_prepare (tableName r) (endpointCountQuery (tableName r)) s of
        (Inl err, s1) \<Rightarrow> (Inl err, s1)
      | (Inr stmt, s1) \<Rightarrow>
          (case stmt_query_row stmt [] s1 of
             (row, s2) \<Rightarrow> (scan_count row, stmt_close stmt s2)))"

definition Create :: "SQLiteEndpointRepository \<Rightarrow> Endpoint option \<Rightarrow> nat option \<Rightarrow> store \<Rightarrow> (error + uint64) \<times> store" where
  "Create r endpoint tx s =
     (case endpoint of
        None \<Rightarrow> (Inl (InvalidArgument ''endpoint missed''), s)
      | Some e \<Rightarrow>
          if Id e > 0 then (Inl (InvalidArgument ''endpoint already created''), s)
          else
            (case TryToBegin tx s of
               (Inl err, s1) \<Rightarrow> (Inl err, s1)
             | (Inr (tx, closeTx), s1) \<Rightarrow>
                 (case tx_prepare (tableName r) tx
                         (endpointInsertQuery (tableName r) endpointInsertValuesQuery) s1 of
                    (Inl err, s2) \<Rightarrow>
                      (case TryToRollback tx err closeTx s2 of (err', s3) \<Rightarrow> (Inl err', s3))
                  | (Inr stmt, s2) \<Rightarrow>
                      (case stmt_exec stmt
                              [VText (Name e), VText (Url e), VText (Method e), VText (Headers e)] s2 of
                         (Inl err, s3) \<Rightarrow>
                           (case TryToRollback tx err closeTx s3 of (err', s4) \<Rightarrow> (Inl err', s4))
                       | (Inr res, s3) \<Rightarrow>
                           (case LastInsertId res s3 of
                              Inl err \<Rightarrow>
                                (case TryToRollback tx err closeTx s3 of (err', s4) \<Rightarrow> (Inl err', s4))
                            | Inr id' \<Rightarrow>
                                (case TryToCommit tx closeTx s3 of
                                   (Some err, s4) \<Rightarrow> (Inl err, s4)
                                 | (None, s4) \<Rightarrow> (Inr (word_of_int id'), s4)))))))"

definition Update :: "SQLiteEndpointRepository \<Rightarrow> Endpoint option \<Rightarrow> nat option \<Rightarrow> store \<Rightarrow> error option \<times> store" where
  "Update r endpoint tx s =
     (case endpoint of
        None \<Rightarrow> (Some (InvalidArgument ''endpoint missed''), s)
      | Some e \<Rightarrow>
          if Id e = 0 \<or> Id e < 0 then (Some (InvalidArgument ''endpoint not created yet''), s)
          else
            (case TryToBegin tx s of
               (Inl err, s1) \<Rightarrow> (Some err, s1)
             | (Inr (tx, closeTx), s1) \<Rightarrow>
                 (case tx_prepare (tableName r) tx (endpointUpdateQuery (tableName r)) s1 of
                    (Inl err, s2) \<Rightarrow>
                      (case TryToRollback tx err closeTx s2 of (err', s3) \<Rightarrow> (Some err', s3))
                  | (Inr stmt, s2) \<Rightarrow>
                      (case stmt_exec stmt
                              [VText (Name e), VText (Url e), VText (Method e), VText (Headers e),
                               VUint (Id e)] s2 of
                         (Inl err, s3) \<Rightarrow>
                           (case TryToRollback tx err closeTx s3 of (err', s4) \<Rightarrow> (Some err', s4))
                       | (Inr res, s3) \<Rightarrow> TryToCommit tx closeTx s3))))"

definition Delete :: "SQLiteEndpointRepository \<Rightarrow> uint64 \<Rightarrow> nat option \<Rightarrow> store \<Rightarrow> error option \<times> store" where
  "Delete r id' tx s =
     (if id' = 0 then (Some (InvalidArgument ''id must be greater than 0''), s)
      else
        (case TryToBegin tx s of
           (Inl err, s1) \<Rightarrow> (Some err, s1)
         | (Inr (tx, closeTx), s1) \<Rightarrow>
             (case tx_prepare (tableName r) tx (endpointDeleteQuery (tableName r) @ '' WHERE id=?'') s1 of
                (Inl err, s2) \<Rightarrow>
                  (case TryToRollback tx err closeTx s2 of (err', s3) \<Rightarrow> (Some err', s3))
              | (Inr stmt, s2) \<Rightarrow>
                  (case stmt_exec stmt [VUint id'] s2 of
                     (Inl err, s3) \<Rightarrow>
                       (case TryToRollback tx err closeTx s3 of (err', s4) \<Rightarrow> (Some err', s4))
                   | (Inr res, s3) \<Rightarrow> TryToCommit tx closeTx s3))))"

definition DeleteMany :: "SQLiteEndpointRepository \<Rightarrow> uint64 list \<Rightarrow> nat option \<Rightarrow> store \<Rightarrow> error option \<times> store" where
  "DeleteMany r ids tx s =
     (if length ids = 0 then (Some (InvalidArgument ''passed empty list of ids''), s)
      else
        (case TryToBegin tx s of
           (Inl err, s1) \<Rightarrow> (Some err, s1)
         | (Inr (tx, closeTx), s1) \<Rightarrow>
             (case tx_prepare (tableName r) tx
                     (endpointDeleteQuery (tableName r) @ '' WHERE id IN ('' @ JoinUintSlice ids '', '' @ '')'') s1 of
                (Inl err, s2) \<Rightarrow>
                  (case TryToRollback tx err closeTx s2 of (err', s3) \<Rightarrow> (Some err', s3))
              | (Inr stmt, s2) \<Rightarrow>
                  (case stmt_exec stmt [] s2 of
                     (Inl err, s3) \<Rightarrow>
                       (case TryToRollback tx err closeTx s3 of (err', s4) \<Rightarrow> (Some err', s4))
                   | (Inr res, s3) \<Rightarrow> TryToCommit tx closeTx s3))))"

section \<open>Reading the record of calls\<close>

text \<open>The calls an operation adds to the record of the store it started from.\<close>

definition new_events :: "store \<Rightarrow> store \<Rightarrow> event list" where
  "new_events s s' = drop (length (events s)) (events s')"

fun is_resolution :: "event \<Rightarrow> bool" where
  "is_resolution (EvCommit t) = True"
| "is_resolution (EvRollback t) = True"
| "is_resolution _ = False"

fun is_begin :: "event \<Rightarrow> bool" where
  "is_begin (EvBegin t) = True"
| "is_begin _ = False"

fun is_statement_call :: "event \<Rightarrow> bool" where
  "is_statement_call (EvPrepare k q) = True"
| "is_statement_call (EvExec k args) = True"
| "is_statement_call (EvQuery k args) = True"
| "is_statement_call _ = False"

text \<open>Every transaction begun in \<open>evs\<close> is committed or rolled back in \<open>evs\<close>.\<close>

definition all_resolved :: "event list \<Rightarrow> bool" where
  "all_resolved evs =
     list_all (\<lambda>ev. case ev of EvBegin t \<Rightarrow> EvCommit t \<in> set evs \<or> EvRollback t \<in> set evs | _ \<Rightarrow> True) evs"

text \<open>Every statement prepared in \<open>evs\<close> is closed in \<open>evs\<close>.\<close>

definition all_closed :: "event list \<Rightarrow> bool" where
  "all_closed evs =
     list_all (\<lambda>ev. case ev of EvPrepare k q \<Rightarrow> EvClose k \<in> set evs | _ \<Rightarrow> True) evs"

text \<open>
  \<open>quiet s s'\<close>: from \<open>s\<close> to \<open>s'\<close> only statement calls were recorded (prepare, execute,
  query, close), and the same transactions are open. \<open>resolves t s s'\<close>: from \<open>s\<close> to \<open>s'\<close> no
  transaction was begun and \<open>t\<close> was committed or rolled back, and \<open>t\<close> is no longer open.
\<close>

definition quiet :: "store \<Rightarrow> store \<Rightarrow> bool" where
  "quiet s s' =
     (\<exists>evs. events s' = events s @ evs
        \<and> list_all (\<lambda>ev. \<not> is_resolution ev \<and> \<not> is_begin ev) evs
        \<and> (\<forall>t. txs s' t = None \<longleftrightarrow> txs s t = None))"

definition resolves :: "nat \<Rightarrow> store \<Rightarrow> store \<Rightarrow> bool" where
  "resolves t s s' =
     (\<exists>evs. events s' = events s @ evs
        \<and> list_all (\<lambda>ev. \<not> is_begin ev) evs
        \<and> (EvCommit t \<in> set evs \<or> EvRollback t \<in> set evs)
        \<and> txs s' t = None)"

text \<open>What the ownership invariant says of a call that went from \<open>s\<close> to \<open>s'\<close>: with a
  borrowed handle \<open>t\<close>, no commit and no rollback was made, and \<open>t\<close> is open iff it was; with
  no handle supplied, every transaction the call began is committed or rolled back and is no
  longer open.\<close>

definition borrowed_untouched :: "nat \<Rightarrow> store \<Rightarrow> store \<Rightarrow> bool" where
  "borrowed_untouched t s s' =
     (list_all (\<lambda>ev. \<not> is_resolution ev \<and> \<not> is_begin ev) (new_events s s')
      \<and> (txs s' t = None \<longleftrightarrow> txs s t = None))"

definition owned_resolved :: "store \<Rightarrow> store \<Rightarrow> bool" where
  "owned_resolved s s' =
     (all_resolved (new_events s s')
      \<and> list_all (\<lambda>ev. case ev of EvBegin t \<Rightarrow> txs s' t = None | _ \<Rightarrow> True) (new_events s s'))"

text \<open>A call without a handle either records nothing, or begins one transaction \<open>t\<close> and
  resolves it.\<close>

definition owned_ok :: "store \<Rightarrow> store \<Rightarrow> bool" where
  "owned_ok s s' = (s' = s \<or> (\<exists>t s1. events s1 = events s @ [EvBegin t] \<and> resolves t s1 s'))"

section \<open>Notions used in the statements\<close>

text \<open>A store in which no call fails for reasons of the store's own.\<close>

definition healthy :: "store \<Rightarrow> bool" where
  "healthy s =
     list_all (\<lambda>c. faults s c = None)
       [CallBegin, CallPrepare, CallExec, CallQuery, CallLastInsertId, CallCommit, CallRollback]"

text \<open>The identifiers of the rows are positive, as all identifiers that SQLite assigns are.\<close>

definition positive_ids :: "row list \<Rightarrow> bool" where
  "positive_ids rs = list_all (\<lambda>rw. 0 < rid rw) rs"

definition store_positive :: "store \<Rightarrow> bool" where
  "store_positive s = (positive_ids (table s) \<and> (\<forall>t w. txs s t = Some w \<longrightarrow> positive_ids w))"

text \<open>The entity that the mapper reads from a row.\<close>

definition endpoint_of :: "row \<Rightarrow> Endpoint" where
  "endpoint_of rw =
     \<lparr>Id = word_of_int (rid rw), Name = rname rw, Url = rurl rw, Method = rmethod rw,
      Headers = rheaders rw\<rparr>"

text \<open>
  The rows that the statement compiled by \<^verbatim>\<open>Find\<close> for the filter \<open>q\<close> selects from the rows
  \<open>rs\<close>, in a store whose \<^verbatim>\<open>LIKE\<close> operator is \<open>lk\<close>: the condition on the name, the order, the
  window.
\<close>

definition Find_selects :: "(string \<Rightarrow> string \<Rightarrow> bool) \<Rightarrow> EndpointQuery \<Rightarrow> row \<Rightarrow> bool" where
  "Find_selects lk q rw =
     (if QName q = [] then True
      else if HasPrefix (QName q) ''*'' \<or> HasSuffix (QName q) ''*''
           then lk (Find_name_arg (QName q)) (rname rw)
           else rname rw = Find_name_arg (QName q))"

definition Find_window :: "EndpointQuery \<Rightarrow> row list \<Rightarrow> row list" where
  "Find_window q rs = (if Take q > 0 then take (nat (Take q)) (drop (nat (Skip q)) rs) else rs)"

definition Find_rows :: "(string \<Rightarrow> string \<Rightarrow> bool) \<Rightarrow> EndpointQuery \<Rightarrow> row list \<Rightarrow> row list" where
  "Find_rows lk q rs = Find_window q (sort_key rid (filter (Find_selects lk q) rs))"

subsection \<open>The \<^verbatim>\<open>LIKE\<close> operator on ASCII text\<close>

text \<open>ASCII text: every byte is between 1 and 127.\<close>

definition ascii_text :: "string \<Rightarrow> bool" where
  "ascii_text s = list_all (\<lambda>c. 1 \<le> (of_char c :: nat) \<and> (of_char c :: nat) \<le> 127) s"



subsection \<open>The match modes in the words of the specification\<close>







section \<open>Wildcard handling of the name pattern\<close>

lemma HasPrefix_star: "HasPrefix s ''*'' \<longleftrightarrow> (\<exists>t. s = CHR ''*'' # t)"
  by (cases s) (auto simp: HasPrefix_def)

lemma HasSuffix_star: "HasSuffix s ''*'' \<longleftrightarrow> (\<exists>t. s = t @ ''*'')"
proof (cases s rule: rev_cases)
  case Nil
  then show ?thesis by (simp add: HasSuffix_def)
next
  case (snoc t c)
  then show ?thesis by (auto simp: HasSuffix_def)
qed

lemma ReplaceAll_empty: "ReplaceAll s c '''' = filter (\<lambda>x. x \<noteq> c) s"
  by (induction s) (auto simp: ReplaceAll_def)

lemma hd_star_HasPrefix: "n \<noteq> [] \<Longrightarrow> HasPrefix n ''*'' \<longleftrightarrow> hd n = CHR ''*''"
  by (cases n) (auto simp: HasPrefix_star)

lemma last_star_HasSuffix: "n \<noteq> [] \<Longrightarrow> HasSuffix n ''*'' \<longleftrightarrow> last n = CHR ''*''"
  by (cases n rule: rev_cases) (auto simp: HasSuffix_star)

text \<open>The window part of the statement and its two arguments.\<close>

lemma Find_compile_name:
  assumes "QName q \<noteq> []"
  shows "Find_compile r (Some q) =
           (endpointSelectQuery (tableName r) @ '' WHERE'' @ Find_name_clause (QName q) @ '' ORDER BY id''
              @ (if Take q > 0 then '' LIMIT ? OFFSET ?'' else []),
            VText (Find_name_arg (QName q)) # (if Take q > 0 then [VInt (Take q), VInt (Skip q)] else []))"
  using assms by (simp add: Find_compile_def)

lemma Find_name_arg_marked:
  assumes "n \<noteq> []" and "hd n = CHR ''*'' \<or> last n = CHR ''*''"
  shows "Find_name_arg n =
           (if hd n = CHR ''*'' then ''%'' else []) @ filter (\<lambda>c. c \<noteq> CHR ''*'') n
             @ (if last n = CHR ''*'' then ''%'' else [])"
  using assms by (auto simp: Find_name_arg_def hd_star_HasPrefix last_star_HasSuffix ReplaceAll_empty)

lemma Find_name_arg_plain:
  assumes "n \<noteq> []" and "hd n \<noteq> CHR ''*''" and "last n \<noteq> CHR ''*''"
  shows "Find_name_arg n = n"
  using assms by (simp add: Find_name_arg_def hd_star_HasPrefix last_star_HasSuffix)

lemma Find_name_clause_cases:
  assumes "n \<noteq> []"
  shows "Find_name_clause n =
           (if hd n = CHR ''*'' \<or> last n = CHR ''*'' then '' name LIKE ?'' else '' name = ?'')"
  using assms by (simp add: Find_name_clause_def hd_star_HasPrefix last_star_HasSuffix)

section \<open>Argument checks\<close>

text \<open>
  Claim C2. \<^verbatim>\<open>Get(0)\<close>, \<^verbatim>\<open>Delete(0)\<close>, \<^verbatim>\<open>Create\<close> of a nil entity or of an entity whose identifier
  is not 0, \<^verbatim>\<open>Update\<close> of a nil entity or of an entity with identifier 0, and \<^verbatim>\<open>DeleteMany\<close> of
  an empty list fail with the error of the argument check and return the store exactly as
  they found it: no transaction begun, no statement prepared, no call recorded.
\<close>

theorem invalid_arguments_rejected:
  "Get r 0 s = (Inl (InvalidArgument ''id must be greater than 0''), s)
   \<and> Delete r 0 tx s = (Some (InvalidArgument ''id must be greater than 0''), s)
   \<and> Create r None tx s = (Inl (InvalidArgument ''endpoint missed''), s)
   \<and> (Id e \<noteq> 0 \<longrightarrow> Create r (Some e) tx s = (Inl (InvalidArgument ''endpoint already created''), s))
   \<and> Update r None tx s = (Some (InvalidArgument ''endpoint missed''), s)
   \<and> (Id e = 0 \<longrightarrow> Update r (Some e) tx s = (Some (InvalidArgument ''endpoint not created yet''), s))
   \<and> DeleteMany r [] tx s = (Some (InvalidArgument ''passed empty list of ids''), s)"
  by (simp add: Get_def Delete_def Create_def Update_def DeleteMany_def word_greater_zero_iff)

theorem invalid_arguments_rejected_witness:
  "Id \<lparr>Id = 7, Name = ''n'', Url = ''u'', Method = ''GET'', Headers = ''{}''\<rparr> \<noteq> 0
   \<and> Create \<lparr>tableName = ''endpoints''\<rparr>
        (Some \<lparr>Id = 7, Name = ''n'', Url = ''u'', Method = ''GET'', Headers = ''{}''\<rparr>) None
        \<lparr>table = [], txs = Map.empty, stmts = [], next_handle = 0, events = [], faults = (\<lambda>c. None), like_op = like_ascii\<rparr>
      = (Inl (InvalidArgument ''endpoint already created''),
         \<lparr>table = [], txs = Map.empty, stmts = [], next_handle = 0, events = [], faults = (\<lambda>c. None), like_op = like_ascii\<rparr>)
   \<and> Id \<lparr>Id = 0, Name = ''n'', Url = ''u'', Method = ''GET'', Headers = ''{}''\<rparr> = 0
   \<and> Update \<lparr>tableName = ''endpoints''\<rparr>
        (Some \<lparr>Id = 0, Name = ''n'', Url = ''u'', Method = ''GET'', Headers = ''{}''\<rparr>) (Some 3)
        \<lparr>table = [], txs = Map.empty, stmts = [], next_handle = 0, events = [], faults = (\<lambda>c. None), like_op = like_ascii\<rparr>
      = (Some (InvalidArgument ''endpoint not created yet''),
         \<lparr>table = [], txs = Map.empty, stmts = [], next_handle = 0, events = [], faults = (\<lambda>c. None), like_op = like_ascii\<rparr>)"
  using invalid_arguments_rejected
          [of "\<lparr>tableName = ''endpoints''\<rparr>"
              "\<lparr>table = [], txs = Map.empty, stmts = [], next_handle = 0, events = [], faults = (\<lambda>c. None), like_op = like_ascii\<rparr>"
              None "\<lparr>Id = 7, Name = ''n'', Url = ''u'', Method = ''GET'', Headers = ''{}''\<rparr>"]
        invalid_arguments_rejected
          [of "\<lparr>tableName = ''endpoints''\<rparr>"
              "\<lparr>table = [], txs = Map.empty, stmts = [], next_handle = 0, events = [], faults = (\<lambda>c. None), like_op = like_ascii\<rparr>"
              "Some 3" "\<lparr>Id = 0, Name = ''n'', Url = ''u'', Method = ''GET'', Headers = ''{}''\<rparr>"]
  by simp

section \<open>Transactions: who resolves them\<close>

lemma quiet_refl: "quiet s s"
  by (simp add: quiet_def)

lemma quiet_trans: "quiet s s1 \<Longrightarrow> quiet s1 s2 \<Longrightarrow> quiet s s2"
  unfolding quiet_def by (elim exE conjE) (rule_tac x = "evs @ evsa" in exI, simp)

lemma quiet_open: "quiet s s' \<Longrightarrow> txs s t \<noteq> None \<Longrightarrow> txs s' t \<noteq> None"
  unfolding quiet_def by (elim exE conjE) simp

lemma prepare_quiet: "prepare tbl ow q s = (res, s') \<Longrightarrow> quiet s s'"
  by (auto simp: prepare_def quiet_def Let_def split: if_splits option.splits)

lemma stmt_exec_quiet: "stmt_exec k args s = (res, s') \<Longrightarrow> quiet s s'"
  by (auto simp: stmt_exec_def quiet_def Let_def split: if_splits option.splits sum.splits prod.splits)

lemma stmt_query_quiet: "stmt_query k args s = (res, s') \<Longrightarrow> quiet s s'"
  by (auto simp: stmt_query_def quiet_def Let_def split: if_splits option.splits sum.splits prod.splits)

lemma stmt_close_quiet: "quiet s (stmt_close k s)"
  by (auto simp: stmt_close_def quiet_def split: option.splits)

lemma close_stmts_of_events:
  "\<exists>evs. events (close_stmts_of t s) = events s @ evs \<and> list_all (\<lambda>ev. \<not> is_begin ev) evs"
  by (auto simp: close_stmts_of_def list_all_iff)

lemma close_stmts_of_txs: "txs (close_stmts_of t s) = txs s"
  by (simp add: close_stmts_of_def)

lemma tx_commit_resolves:
  assumes "txs s t \<noteq> None" and "tx_commit t s = (res, s')"
  shows "resolves t s s'"
proof -
  obtain evs where e: "events (close_stmts_of t (s\<lparr>txs := (txs s)(t := None), events := events s @ [EvCommit t]\<rparr>))
      = (events s @ [EvCommit t]) @ evs" "list_all (\<lambda>ev. \<not> is_begin ev) evs"
    using close_stmts_of_events [of t "s\<lparr>txs := (txs s)(t := None), events := events s @ [EvCommit t]\<rparr>"] by auto
  show ?thesis
    using assms e unfolding resolves_def tx_commit_def
    by (auto simp: Let_def close_stmts_of_txs split: option.splits intro!: exI [of _ "EvCommit t # evs"])
qed

lemma tx_rollback_resolves:
  assumes "txs s t \<noteq> None" and "tx_rollback t s = (res, s')"
  shows "resolves t s s'"
proof -
  obtain evs where e: "events (close_stmts_of t (s\<lparr>txs := (txs s)(t := None), events := events s @ [EvRollback t]\<rparr>))
      = (events s @ [EvRollback t]) @ evs" "list_all (\<lambda>ev. \<not> is_begin ev) evs"
    using close_stmts_of_events [of t "s\<lparr>txs := (txs s)(t := None), events := events s @ [EvRollback t]\<rparr>"] by auto
  show ?thesis
    using assms e unfolding resolves_def tx_rollback_def
    by (auto simp: Let_def close_stmts_of_txs split: option.splits intro!: exI [of _ "EvRollback t # evs"])
qed

lemma quiet_resolves: "quiet s s1 \<Longrightarrow> resolves t s1 s2 \<Longrightarrow> resolves t s s2"
  unfolding quiet_def resolves_def
  by (elim exE conjE) (rule_tac x = "evs @ evsa" in exI, auto simp: list_all_iff)

lemma TryToCommit_owned: "txs s t \<noteq> None \<Longrightarrow> TryToCommit t True s = (res, s') \<Longrightarrow> resolves t s s'"
  by (simp add: TryToCommit_def tx_commit_resolves)

lemma TryToRollback_owned: "txs s t \<noteq> None \<Longrightarrow> TryToRollback t err True s = (res, s') \<Longrightarrow> resolves t s s'"
  by (cases "tx_rollback t s")
     (auto simp: TryToRollback_def split: option.splits intro: tx_rollback_resolves)

lemma TryToCommit_borrowed: "TryToCommit t False s = (None, s)"
  by (simp add: TryToCommit_def)

lemma TryToRollback_borrowed: "TryToRollback t err False s = (err, s)"
  by (simp add: TryToRollback_def)


lemma db_begin_Inl: "db_begin s = (Inl e, s1) \<Longrightarrow> s1 = s"
  by (auto simp: db_begin_def Let_def split: option.splits)

lemma db_begin_Inr:
  "db_begin s = (Inr t, s1) \<Longrightarrow> events s1 = events s @ [EvBegin t] \<and> txs s1 t \<noteq> None"
  by (auto simp: db_begin_def Let_def split: option.splits)

lemma owned_prepare_failed:
  assumes "txs s1 t \<noteq> None" and "prepare tbl ow q s1 = (Inl err, s2)"
    and "TryToRollback t err True s2 = (e', s3)"
  shows "resolves t s1 s3"
  using assms prepare_quiet quiet_open quiet_resolves TryToRollback_owned by meson

lemma owned_exec_failed:
  assumes "txs s1 t \<noteq> None" and "prepare tbl ow q s1 = (Inr k, s2)"
    and "stmt_exec k args s2 = (x, s3)"
    and "TryToRollback t err True s3 = (e', s4)"
  shows "resolves t s1 s4"
proof -
  have "quiet s1 s3"
    using assms(2,3) prepare_quiet stmt_exec_quiet quiet_trans by meson
  then show ?thesis
    using assms(1,4) quiet_open quiet_resolves TryToRollback_owned by meson
qed

lemma owned_committed:
  assumes "txs s1 t \<noteq> None" and "prepare tbl ow q s1 = (Inr k, s2)"
    and "stmt_exec k args s2 = (x, s3)"
    and "TryToCommit t True s3 = (e', s4)"
  shows "resolves t s1 s4"
proof -
  have "quiet s1 s3"
    using assms(2,3) prepare_quiet stmt_exec_quiet quiet_trans by meson
  then show ?thesis
    using assms(1,4) quiet_open quiet_resolves TryToCommit_owned by meson
qed

lemma Update_owned: "Update r endpoint None s = (res, s') \<Longrightarrow> owned_ok s s'"
  unfolding Update_def TryToBegin_def tx_prepare_def owned_ok_def
  by (auto split: option.splits sum.splits prod.splits if_splits
      dest!: db_begin_Inl db_begin_Inr
      intro: owned_prepare_failed owned_exec_failed owned_committed)


lemma Create_owned: "Create r endpoint None s = (res, s') \<Longrightarrow> owned_ok s s'"
  unfolding Create_def TryToBegin_def tx_prepare_def owned_ok_def
  by (auto split: option.splits sum.splits prod.splits if_splits
      dest!: db_begin_Inl db_begin_Inr
      intro: owned_prepare_failed owned_exec_failed owned_committed)

lemma Delete_owned: "Delete r i None s = (res, s') \<Longrightarrow> owned_ok s s'"
  unfolding Delete_def TryToBegin_def tx_prepare_def owned_ok_def
  by (auto split: option.splits sum.splits prod.splits if_splits
      dest!: db_begin_Inl db_begin_Inr
      intro: owned_prepare_failed owned_exec_failed owned_committed)

lemma DeleteMany_owned: "DeleteMany r ids None s = (res, s') \<Longrightarrow> owned_ok s s'"
  unfolding DeleteMany_def TryToBegin_def tx_prepare_def owned_ok_def
  by (auto split: option.splits sum.splits prod.splits if_splits
      dest!: db_begin_Inl db_begin_Inr
      intro: owned_prepare_failed owned_exec_failed owned_committed)

lemma borrowed_steps:
  assumes "prepare tbl ow q s = (Inr k, s2)" and "stmt_exec k args s2 = (x, s3)"
  shows "quiet s s3"
  using assms prepare_quiet stmt_exec_quiet quiet_trans by meson

lemma Update_borrowed: "Update r endpoint (Some t) s = (res, s') \<Longrightarrow> quiet s s'"
  unfolding Update_def TryToBegin_def tx_prepare_def
  by (auto simp: TryToCommit_borrowed TryToRollback_borrowed quiet_refl
      split: option.splits sum.splits prod.splits if_splits
      intro: prepare_quiet borrowed_steps)

lemma Create_borrowed: "Create r endpoint (Some t) s = (res, s') \<Longrightarrow> quiet s s'"
  unfolding Create_def TryToBegin_def tx_prepare_def
  by (auto simp: TryToCommit_borrowed TryToRollback_borrowed quiet_refl
      split: option.splits sum.splits prod.splits if_splits
      intro: prepare_quiet borrowed_steps)

lemma Delete_borrowed: "Delete r i (Some t) s = (res, s') \<Longrightarrow> quiet s s'"
  unfolding Delete_def TryToBegin_def tx_prepare_def
  by (auto simp: TryToCommit_borrowed TryToRollback_borrowed quiet_refl
      split: option.splits sum.splits prod.splits if_splits
      intro: prepare_quiet borrowed_steps)

lemma DeleteMany_borrowed: "DeleteMany r ids (Some t) s = (res, s') \<Longrightarrow> quiet s s'"
  unfolding DeleteMany_def TryToBegin_def tx_prepare_def
  by (auto simp: TryToCommit_borrowed TryToRollback_borrowed quiet_refl
      split: option.splits sum.splits prod.splits if_splits
      intro: prepare_quiet borrowed_steps)

lemma not_begin_case: "\<not> is_begin ev \<Longrightarrow> (case ev of EvBegin t \<Rightarrow> P t | _ \<Rightarrow> True)"
  by (cases ev) auto

lemma owned_ok_resolved:
  assumes "owned_ok s s'"
  shows "owned_resolved s s'"
proof (cases "s' = s")
  case True
  then show ?thesis by (simp add: owned_resolved_def new_events_def all_resolved_def)
next
  case False
  with assms obtain t s1 where a: "events s1 = events s @ [EvBegin t]" "resolves t s1 s'"
    unfolding owned_ok_def by auto
  from a(2) obtain evs where e: "events s' = events s1 @ evs"
      "list_all (\<lambda>ev. \<not> is_begin ev) evs" "EvCommit t \<in> set evs \<or> EvRollback t \<in> set evs"
      "txs s' t = None"
    unfolding resolves_def by auto
  have n: "new_events s s' = EvBegin t # evs"
    using a(1) e(1) by (simp add: new_events_def)
  show ?thesis
    using e(2,3,4) unfolding owned_resolved_def all_resolved_def n
    by (auto simp: list_all_iff intro: not_begin_case)
qed

lemma quiet_untouched:
  assumes "quiet s s'"
  shows "borrowed_untouched t s s'"
  using assms unfolding quiet_def borrowed_untouched_def new_events_def by auto

text \<open>
  Claim C1. Whatever the arguments and whatever the store does, a mutating operation called
  with a transaction handle makes no commit and no rollback (and begins nothing), and the
  handle is open afterwards iff it was open before; called without a handle, every transaction
  it began is committed or rolled back, and is no longer open, when it returns.
\<close>

theorem transaction_ownership:
  "borrowed_untouched t s (snd (Create r e (Some t) s))
   \<and> borrowed_untouched t s (snd (Update r e (Some t) s))
   \<and> borrowed_untouched t s (snd (Delete r i (Some t) s))
   \<and> borrowed_untouched t s (snd (DeleteMany r ids (Some t) s))
   \<and> owned_resolved s (snd (Create r e None s))
   \<and> owned_resolved s (snd (Update r e None s))
   \<and> owned_resolved s (snd (Delete r i None s))
   \<and> owned_resolved s (snd (DeleteMany r ids None s))"
proof (intro conjI)
  show "borrowed_untouched t s (snd (Create r e (Some t) s))"
    by (rule quiet_untouched [OF Create_borrowed [OF surjective_pairing]])
  show "borrowed_untouched t s (snd (Update r e (Some t) s))"
    by (rule quiet_untouched [OF Update_borrowed [OF surjective_pairing]])
  show "borrowed_untouched t s (snd (Delete r i (Some t) s))"
    by (rule quiet_untouched [OF Delete_borrowed [OF surjective_pairing]])
  show "borrowed_untouched t s (snd (DeleteMany r ids (Some t) s))"
    by (rule quiet_untouched [OF DeleteMany_borrowed [OF surjective_pairing]])
  show "owned_resolved s (snd (Create r e None s))"
    by (rule owned_ok_resolved [OF Create_owned [OF surjective_pairing]])
  show "owned_resolved s (snd (Update r e None s))"
    by (rule owned_ok_resolved [OF Update_owned [OF surjective_pairing]])
  show "owned_resolved s (snd (Delete r i None s))"
    by (rule owned_ok_resolved [OF Delete_owned [OF surjective_pairing]])
  show "owned_resolved s (snd (DeleteMany r ids None s))"
    by (rule owned_ok_resolved [OF DeleteMany_owned [OF surjective_pairing]])
qed

theorem transaction_ownership_witness:
  "owned_resolved
     \<lparr>table = [], txs = Map.empty, stmts = [], next_handle = 0, events = [],
      faults = (\<lambda>c. if c = CallExec then Some ''constraint failed'' else None),
      like_op = like_ascii\<rparr>
     (snd (Create \<lparr>tableName = ''endpoints''\<rparr>
             (Some \<lparr>Id = 0, Name = ''n'', Url = ''u'', Method = ''GET'', Headers = ''{}''\<rparr>) None
             \<lparr>table = [], txs = Map.empty, stmts = [], next_handle = 0, events = [],
              faults = (\<lambda>c. if c = CallExec then Some ''constraint failed'' else None),
      like_op = like_ascii\<rparr>))
   \<and> events (snd (Create \<lparr>tableName = ''endpoints''\<rparr>
             (Some \<lparr>Id = 0, Name = ''n'', Url = ''u'', Method = ''GET'', Headers = ''{}''\<rparr>) None
             \<lparr>table = [], txs = Map.empty, stmts = [], next_handle = 0, events = [],
              faults = (\<lambda>c. if c = CallExec then Some ''constraint failed'' else None),
      like_op = like_ascii\<rparr>))
       = [EvBegin 0,
          EvPrepare 1 ''INSERT INTO endpoints (name, url, method, headers) VALUES (?, ?, ?, ?)'',
          EvExec 1 [VText ''n'', VText ''u'', VText ''GET'', VText ''{}''],
          EvRollback 0, EvClose 1]
   \<and> borrowed_untouched 0
     \<lparr>table = [], txs = [0 \<mapsto> []], stmts = [], next_handle = 1, events = [EvBegin 0],
      faults = (\<lambda>c. None), like_op = like_ascii\<rparr>
     (snd (Create \<lparr>tableName = ''endpoints''\<rparr>
             (Some \<lparr>Id = 0, Name = ''n'', Url = ''u'', Method = ''GET'', Headers = ''{}''\<rparr>) (Some 0)
             \<lparr>table = [], txs = [0 \<mapsto> []], stmts = [], next_handle = 1, events = [EvBegin 0],
              faults = (\<lambda>c. None), like_op = like_ascii\<rparr>))
   \<and> events (snd (Create \<lparr>tableName = ''endpoints''\<rparr>
             (Some \<lparr>Id = 0, Name = ''n'', Url = ''u'', Method = ''GET'', Headers = ''{}''\<rparr>) (Some 0)
             \<lparr>table = [], txs = [0 \<mapsto> []], stmts = [], next_handle = 1, events = [EvBegin 0],
              faults = (\<lambda>c. None), like_op = like_ascii\<rparr>))
       = [EvBegin 0,
          EvPrepare 1 ''INSERT INTO endpoints (name, url, method, headers) VALUES (?, ?, ?, ?)'',
          EvExec 1 [VText ''n'', VText ''u'', VText ''GET'', VText ''{}'']]"
proof (intro conjI)
  show "owned_resolved
     \<lparr>table = [], txs = Map.empty, stmts = [], next_handle = 0, events = [],
      faults = (\<lambda>c. if c = CallExec then Some ''constraint failed'' else None),
      like_op = like_ascii\<rparr>
     (snd (Create \<lparr>tableName = ''endpoints''\<rparr>
             (Some \<lparr>Id = 0, Name = ''n'', Url = ''u'', Method = ''GET'', Headers = ''{}''\<rparr>) None
             \<lparr>table = [], txs = Map.empty, stmts = [], next_handle = 0, events = [],
              faults = (\<lambda>c. if c = CallExec then Some ''constraint failed'' else None),
      like_op = like_ascii\<rparr>))"
    using transaction_ownership by blast
  show "borrowed_untouched 0
     \<lparr>table = [], txs = [0 \<mapsto> []], stmts = [], next_handle = 1, events = [EvBegin 0],
      faults = (\<lambda>c. None), like_op = like_ascii\<rparr>
     (snd (Create \<lparr>tableName = ''endpoints''\<rparr>
             (Some \<lparr>Id = 0, Name = ''n'', Url = ''u'', Method = ''GET'', Headers = ''{}''\<rparr>) (Some 0)
             \<lparr>table = [], txs = [0 \<mapsto> []], stmts = [], next_handle = 1, events = [EvBegin 0],
              faults = (\<lambda>c. None), like_op = like_ascii\<rparr>))"
    using transaction_ownership by blast
qed code_simp+

section \<open>What \<^verbatim>\<open>Find\<close> returns\<close>

lemma chop_append [simp]: "chop p (p @ r) = Some r"
  by (induction p) auto

lemma parse_select_tail_shapes:
  "parse_select_tail ('' ORDER BY id'') = Some (Select AllRows True Unbounded)"
  "parse_select_tail ('' ORDER BY id LIMIT ? OFFSET ?'') = Some (Select AllRows True LimitOffset)"
  "parse_select_tail ('' WHERE name LIKE ? ORDER BY id'') = Some (Select NameLike True Unbounded)"
  "parse_select_tail ('' WHERE name LIKE ? ORDER BY id LIMIT ? OFFSET ?'') = Some (Select NameLike True LimitOffset)"
  "parse_select_tail ('' WHERE name = ? ORDER BY id'') = Some (Select NameEq True Unbounded)"
  "parse_select_tail ('' WHERE name = ? ORDER BY id LIMIT ? OFFSET ?'') = Some (Select NameEq True LimitOffset)"
  "parse_select_tail ('' WHERE id=? LIMIT 1'') = Some (Select IdEq False LimitOne)"
  by (simp_all add: parse_select_tail_def parse_where_def parse_order_def parse_window_def)

lemma parse_sql_select:
  "parse_sql t (endpointSelectQuery t @ tail) = parse_select_tail tail"
  by (simp add: parse_sql_def endpointSelectQuery_def)

text \<open>The statement of \<^verbatim>\<open>Find\<close>, run on the rows \<open>rs\<close>, yields the rows \<open>Find_rows q rs\<close>.\<close>

lemma Find_statement_runs:
  "\<exists>ast. parse_sql (tableName r) (fst (Find_compile r (Some q))) = Some ast
      \<and> run_query lk ast (snd (Find_compile r (Some q))) rs = Inr (map row_values (Find_rows lk q rs))"
  by (auto simp: Find_compile_def Let_def parse_sql_select parse_select_tail_shapes
        Find_name_clause_def run_query_def Find_rows_def Find_window_def Find_selects_def [abs_def])

lemma Find_nil_statement_runs:
  "\<exists>ast. parse_sql (tableName r) (fst (Find_compile r None)) = Some ast
      \<and> run_query lk ast (snd (Find_compile r None)) rs = Inr (map row_values (sort_key rid rs))"
  by (auto simp: Find_compile_def Let_def parse_sql_select parse_select_tail_shapes run_query_def)

text \<open>The arguments of \<^verbatim>\<open>Find\<close> are a string and two signed integers: none is refused.\<close>

lemma driver_args_Find: "driver_args (snd (Find_compile r query)) = Some (snd (Find_compile r query))"
  by (cases query) (auto simp: Find_compile_def Let_def)

text \<open>A statement of the connection pool: prepare, query, close.\<close>

lemma db_query_run:
  assumes "parse_sql tbl q = Some ast" and "db_prepare tbl q s = (pr, s1)"
    and "driver_args args = Some vs"
  shows "(\<exists>m. faults s CallPrepare = Some m \<and> pr = Inl (StoreFailure m) \<and> s1 = s)
       \<or> (faults s CallPrepare = None \<and> pr = Inr (next_handle s)
           \<and> fst (stmt_query (next_handle s) args s1)
               = (case faults s CallQuery of Some m \<Rightarrow> Inl (StoreFailure m)
                  | None \<Rightarrow> run_query (like_op s) ast vs (table s)))"
  using assms
  by (auto simp: db_prepare_def prepare_def stmt_query_def Let_def split: option.splits)

lemma Find_result:
  "fst (Find r (Some q) s) =
     (case faults s CallPrepare of
        Some m \<Rightarrow> Inl (StoreFailure m)
      | None \<Rightarrow>
          (case faults s CallQuery of
             Some m \<Rightarrow> Inl (StoreFailure m)
           | None \<Rightarrow> ToEndpoints (map row_values (Find_rows (like_op s) q (table s))) (Take q)))"
proof -
  obtain ast where a: "parse_sql (tableName r) (fst (Find_compile r (Some q))) = Some ast"
      "run_query (like_op s) ast (snd (Find_compile r (Some q))) (table s)
         = Inr (map row_values (Find_rows (like_op s) q (table s)))"
    using Find_statement_runs [of r q "like_op s" "table s"] by blast
  obtain pr s1 where p: "db_prepare (tableName r) (fst (Find_compile r (Some q))) s = (pr, s1)"
    by (cases "db_prepare (tableName r) (fst (Find_compile r (Some q))) s")
  show ?thesis
    using db_query_run [OF a(1) p driver_args_Find] p a(2)
    by (auto simp: Find_def case_prod_beta split: option.splits sum.splits)
qed

lemma Find_nil_result:
  "fst (Find r None s) =
     (case faults s CallPrepare of
        Some m \<Rightarrow> Inl (StoreFailure m)
      | None \<Rightarrow>
          (case faults s CallQuery of
             Some m \<Rightarrow> Inl (StoreFailure m)
           | None \<Rightarrow> Inl NilDereference))"
proof -
  obtain ast where a: "parse_sql (tableName r) (fst (Find_compile r None)) = Some ast"
      "run_query (like_op s) ast (snd (Find_compile r None)) (table s)
         = Inr (map row_values (sort_key rid (table s)))"
    using Find_nil_statement_runs [of r "like_op s" "table s"] by blast
  obtain pr s1 where p: "db_prepare (tableName r) (fst (Find_compile r None)) s = (pr, s1)"
    by (cases "db_prepare (tableName r) (fst (Find_compile r None)) s")
  show ?thesis
    using db_query_run [OF a(1) p driver_args_Find] p a(2)
    by (auto simp: Find_def case_prod_beta split: option.splits sum.splits)
qed

lemmas store_calls =
  TryToBegin_def TryToCommit_def TryToRollback_def db_begin_def tx_commit_def tx_rollback_def
  tx_prepare_def db_prepare_def prepare_def stmt_exec_def stmt_query_def stmt_query_row_def
  stmt_close_def close_stmts_of_def LastInsertId_def Let_def

text \<open>The calls that \<^verbatim>\<open>Find\<close> records: when the prepare succeeds, the statement it compiled is
  prepared, queried with the arguments it compiled, and closed; otherwise nothing.\<close>

lemma Find_events:
  "new_events s (snd (Find r query s)) =
     (case faults s CallPrepare of
        Some m \<Rightarrow> []
      | None \<Rightarrow>
          [EvPrepare (next_handle s) (fst (Find_compile r query)),
           EvQuery (next_handle s) (snd (Find_compile r query)),
           EvClose (next_handle s)])"
proof -
  obtain ast where a: "parse_sql (tableName r) (fst (Find_compile r query)) = Some ast"
    using Find_statement_runs [of r _ "like_op s" "table s"] Find_nil_statement_runs [of r "like_op s" "table s"]
    by (cases query) blast+
  show ?thesis
    using a
    by (auto simp: Find_def store_calls new_events_def case_prod_beta driver_args_Find
          split: option.splits sum.splits)
qed

section \<open>The mapper and the \<^verbatim>\<open>LIKE\<close> operator\<close>

lemma scan_endpoint_row:
  "scan_endpoint (row_values rw) =
     (if 0 \<le> rid rw \<and> rid rw < 2 ^ 64 then Inr (endpoint_of rw) else Inl ScanError)"
  by (simp add: scan_endpoint_def row_values_def endpoint_of_def)

lemma ToEndpoints_length: "ToEndpoints vs tc = Inr es \<Longrightarrow> length es = length vs"
  by (induction vs arbitrary: es) (auto split: sum.splits)

lemma ToEndpoints_rows:
  "ToEndpoints (map row_values rs) tc = Inr es \<Longrightarrow> es = map endpoint_of rs \<and> list_all (\<lambda>rw. 0 \<le> rid rw \<and> rid rw < 2 ^ 64) rs"
  by (induction rs arbitrary: es) (auto simp: scan_endpoint_row split: sum.splits if_splits)

lemma ToEndpoints_in_range:
  "list_all (\<lambda>rw. 0 \<le> rid rw \<and> rid rw < 2 ^ 64) rs \<Longrightarrow> ToEndpoints (map row_values rs) tc = Inr (map endpoint_of rs)"
  by (induction rs) (auto simp: scan_endpoint_row)

lemma like_percent [simp]: "like_ascii ''%'' s"
  by (induction s) auto








section \<open>Name patterns\<close>

lemma healthy_faults:
  "healthy s \<Longrightarrow> faults s CallBegin = None \<and> faults s CallPrepare = None \<and> faults s CallExec = None
     \<and> faults s CallQuery = None \<and> faults s CallLastInsertId = None \<and> faults s CallCommit = None
     \<and> faults s CallRollback = None"
  by (simp add: healthy_def)

text \<open>The statement and the argument that \<^verbatim>\<open>Find\<close> compiles for a non-empty name.\<close>

lemma Find_compile_pattern:
  assumes "QName q \<noteq> []"
  shows "Find_compile r (Some q) =
           (endpointSelectQuery (tableName r)
              @ (if hd (QName q) = CHR ''*'' \<or> last (QName q) = CHR ''*''
                 then '' WHERE name LIKE ?'' else '' WHERE name = ?'')
              @ '' ORDER BY id'' @ (if Take q > 0 then '' LIMIT ? OFFSET ?'' else []),
            VText (if hd (QName q) = CHR ''*'' \<or> last (QName q) = CHR ''*''
                   then (if hd (QName q) = CHR ''*'' then ''%'' else [])
                          @ filter (\<lambda>c. c \<noteq> CHR ''*'') (QName q)
                          @ (if last (QName q) = CHR ''*'' then ''%'' else [])
                   else QName q)
              # (if Take q > 0 then [VInt (Take q), VInt (Skip q)] else []))"
proof (cases "hd (QName q) = CHR ''*'' \<or> last (QName q) = CHR ''*''")
  case True
  then show ?thesis
    using Find_compile_name [OF assms, of r] Find_name_arg_marked [OF assms True]
    by (simp add: Find_name_clause_cases [OF assms])
next
  case False
  then show ?thesis
    using Find_compile_name [OF assms, of r] Find_name_arg_plain [OF assms]
    by (simp add: Find_name_clause_cases [OF assms])
qed


subsection \<open>The bound pattern on ASCII text\<close>

lemma ascii_text_append [simp]: "ascii_text (x @ y) \<longleftrightarrow> ascii_text x \<and> ascii_text y"
  by (simp add: ascii_text_def)


lemma ascii_text_percent [simp]: "ascii_text ''%''" "ascii_text []"
  by (simp_all add: ascii_text_def)






section \<open>Asterisks in the name pattern\<close>

text \<open>
  Claim C10. When its prepare succeeds, \<^verbatim>\<open>Find\<close> with a name pattern that has a leading or a
  trailing asterisk prepares the \<^verbatim>\<open>LIKE\<close> statement and binds the pattern with every asterisk
  removed, interior ones included; with a pattern whose asterisks are all interior it
  prepares the equality statement and binds the pattern as it is, asterisks intact. When the
  prepare fails, nothing is bound.
\<close>

theorem Find_asterisks:
  assumes "QName q \<noteq> []"
  shows "(faults s CallPrepare = None \<and> (hd (QName q) = CHR ''*'' \<or> last (QName q) = CHR ''*'') \<longrightarrow>
            (\<exists>a. new_events s (snd (Find r (Some q) s)) =
                   [EvPrepare (next_handle s)
                      (endpointSelectQuery (tableName r) @ '' WHERE name LIKE ? ORDER BY id''
                         @ (if Take q > 0 then '' LIMIT ? OFFSET ?'' else [])),
                    EvQuery (next_handle s)
                      (VText a # (if Take q > 0 then [VInt (Take q), VInt (Skip q)] else [])),
                    EvClose (next_handle s)]
                 \<and> a = (if hd (QName q) = CHR ''*'' then ''%'' else [])
                        @ filter (\<lambda>c. c \<noteq> CHR ''*'') (QName q)
                        @ (if last (QName q) = CHR ''*'' then ''%'' else [])
                 \<and> CHR ''*'' \<notin> set a))
       \<and> (faults s CallPrepare = None \<and> hd (QName q) \<noteq> CHR ''*'' \<and> last (QName q) \<noteq> CHR ''*'' \<longrightarrow>
            new_events s (snd (Find r (Some q) s)) =
              [EvPrepare (next_handle s)
                 (endpointSelectQuery (tableName r) @ '' WHERE name = ? ORDER BY id''
                    @ (if Take q > 0 then '' LIMIT ? OFFSET ?'' else [])),
               EvQuery (next_handle s)
                 (VText (QName q) # (if Take q > 0 then [VInt (Take q), VInt (Skip q)] else [])),
               EvClose (next_handle s)])
       \<and> (faults s CallPrepare \<noteq> None \<longrightarrow> new_events s (snd (Find r (Some q) s)) = [])"
  unfolding Find_events Find_compile_pattern [OF assms] by (auto split: option.splits)

theorem Find_asterisks_witness:
  "new_events
     \<lparr>table = [], txs = Map.empty, stmts = [], next_handle = 0, events = [], faults = (\<lambda>c. None),
      like_op = like_ascii\<rparr>
     (snd (Find \<lparr>tableName = ''endpoints''\<rparr> (Some \<lparr>QName = ''*a*b'', Take = 0, Skip = 0\<rparr>)
             \<lparr>table = [], txs = Map.empty, stmts = [], next_handle = 0, events = [],
              faults = (\<lambda>c. None), like_op = like_ascii\<rparr>))
     = [EvPrepare 0 ''SELECT id, name, url, method, headers FROM endpoints WHERE name LIKE ? ORDER BY id'',
        EvQuery 0 [VText ''%ab''], EvClose 0]
   \<and> new_events
     \<lparr>table = [], txs = Map.empty, stmts = [], next_handle = 0, events = [], faults = (\<lambda>c. None),
      like_op = like_ascii\<rparr>
     (snd (Find \<lparr>tableName = ''endpoints''\<rparr> (Some \<lparr>QName = ''a*b'', Take = 2, Skip = 1\<rparr>)
             \<lparr>table = [], txs = Map.empty, stmts = [], next_handle = 0, events = [],
              faults = (\<lambda>c. None), like_op = like_ascii\<rparr>))
     = [EvPrepare 0
          ''SELECT id, name, url, method, headers FROM endpoints WHERE name = ? ORDER BY id LIMIT ? OFFSET ?'',
        EvQuery 0 [VText ''a*b'', VInt 2, VInt 1], EvClose 0]"
  using Find_asterisks
          [of "\<lparr>QName = ''*a*b'', Take = 0, Skip = 0\<rparr>"
              "\<lparr>table = [], txs = Map.empty, stmts = [], next_handle = 0, events = [],
                faults = (\<lambda>c. None), like_op = like_ascii\<rparr>"
              "\<lparr>tableName = ''endpoints''\<rparr>"]
        Find_asterisks
          [of "\<lparr>QName = ''a*b'', Take = 2, Skip = 1\<rparr>"
              "\<lparr>table = [], txs = Map.empty, stmts = [], next_handle = 0, events = [],
                faults = (\<lambda>c. None), like_op = like_ascii\<rparr>"
              "\<lparr>tableName = ''endpoints''\<rparr>"]
  by (simp add: endpointSelectQuery_def)

section \<open>Pagination and the absent filter\<close>

lemma Find_compile_skip:
  "Take q \<le> 0 \<Longrightarrow> Find_compile r (Some (q\<lparr>Skip := k\<rparr>)) = Find_compile r (Some q)"
  by (simp add: Find_compile_def Let_def)

lemma Find_window_length: "0 < Take q \<Longrightarrow> int (length (Find_window q rs)) \<le> Take q"
  by (simp add: Find_window_def)

text \<open>
  Claim C5. With a take-count above 0 the statement ends in \<^verbatim>\<open>LIMIT ? OFFSET ?\<close>, bound to
  the take-count and the skip-offset; on a healthy store \<^verbatim>\<open>Find\<close> returns the selected rows in
  the order of their identifiers, the skip-offset dropped and the take-count kept, and whenever
  it returns entities they are at most take-count many. With a take-count of 0 or less the
  statement has no window, its arguments and the result do not depend on the skip-offset, and
  on a healthy store \<^verbatim>\<open>Find\<close> returns every selected row.
\<close>

theorem Find_pagination:
  "(Take q > 0 \<longrightarrow>
      (\<exists>txt a. Find_compile r (Some q) = (txt @ '' LIMIT ? OFFSET ?'', a @ [VInt (Take q), VInt (Skip q)]))
      \<and> (healthy s \<longrightarrow>
            fst (Find r (Some q) s) =
              ToEndpoints
                (map row_values
                   (take (nat (Take q)) (drop (nat (Skip q))
                      (sort_key rid (filter (Find_selects (like_op s) q) (table s))))))
                (Take q))
      \<and> (\<forall>es. fst (Find r (Some q) s) = Inr es \<longrightarrow> int (length es) \<le> Take q))
   \<and> (Take q \<le> 0 \<longrightarrow>
      Find_compile r (Some q) =
        (endpointSelectQuery (tableName r)
           @ (if QName q = [] then [] else '' WHERE'' @ Find_name_clause (QName q)) @ '' ORDER BY id'',
         if QName q = [] then [] else [VText (Find_name_arg (QName q))])
      \<and> Find r (Some (q\<lparr>Skip := k\<rparr>)) s = Find r (Some q) s
      \<and> (healthy s \<longrightarrow>
            fst (Find r (Some q) s) =
              ToEndpoints (map row_values (sort_key rid (filter (Find_selects (like_op s) q) (table s)))) (Take q)))"
proof (intro conjI impI allI)
  assume t: "0 < Take q"
  show "\<exists>txt a. Find_compile r (Some q) = (txt @ '' LIMIT ? OFFSET ?'', a @ [VInt (Take q), VInt (Skip q)])"
    using t by (simp add: Find_compile_def Let_def)
  show "fst (Find r (Some q) s) =
          ToEndpoints
            (map row_values
               (take (nat (Take q)) (drop (nat (Skip q))
                  (sort_key rid (filter (Find_selects (like_op s) q) (table s))))))
            (Take q)"
    if "healthy s"
    using that t healthy_faults [of s] by (simp add: Find_result Find_rows_def Find_window_def)
  show "int (length es) \<le> Take q" if "fst (Find r (Some q) s) = Inr es" for es
  proof -
    have "ToEndpoints (map row_values (Find_rows (like_op s) q (table s))) (Take q) = Inr es"
      using that by (auto simp: Find_result split: option.splits)
    then have "length es = length (Find_window q (sort_key rid (filter (Find_selects (like_op s) q) (table s))))"
      using ToEndpoints_length by (fastforce simp: Find_rows_def)
    then show ?thesis using Find_window_length [OF t] by simp
  qed
next
  assume t: "Take q \<le> 0"
  show "Find_compile r (Some q) =
        (endpointSelectQuery (tableName r)
           @ (if QName q = [] then [] else '' WHERE'' @ Find_name_clause (QName q)) @ '' ORDER BY id'',
         if QName q = [] then [] else [VText (Find_name_arg (QName q))])"
    using t by (simp add: Find_compile_def Let_def)
  show "Find r (Some (q\<lparr>Skip := k\<rparr>)) s = Find r (Some q) s"
    using Find_compile_skip [OF t, of r k] by (auto simp: Find_def split: prod.splits sum.splits)
  show "fst (Find r (Some q) s) =
          ToEndpoints (map row_values (sort_key rid (filter (Find_selects (like_op s) q) (table s)))) (Take q)"
    if "healthy s"
    using that t healthy_faults [of s] by (simp add: Find_result Find_rows_def Find_window_def)
qed

theorem Find_pagination_witness:
  "fst (Find \<lparr>tableName = ''endpoints''\<rparr> (Some \<lparr>QName = [], Take = 2, Skip = 1\<rparr>)
         \<lparr>table = [\<lparr>rid = 3, rname = ''c'', rurl = ''u'', rmethod = ''GET'', rheaders = ''{}''\<rparr>,
                   \<lparr>rid = 1, rname = ''a'', rurl = ''u'', rmethod = ''GET'', rheaders = ''{}''\<rparr>,
                   \<lparr>rid = 5, rname = ''e'', rurl = ''u'', rmethod = ''GET'', rheaders = ''{}''\<rparr>,
                   \<lparr>rid = 2, rname = ''b'', rurl = ''u'', rmethod = ''GET'', rheaders = ''{}''\<rparr>,
                   \<lparr>rid = 4, rname = ''d'', rurl = ''u'', rmethod = ''GET'', rheaders = ''{}''\<rparr>],
          txs = Map.empty, stmts = [], next_handle = 0, events = [], faults = (\<lambda>c. None), like_op = like_ascii\<rparr>)
     = Inr [\<lparr>Id = 2, Name = ''b'', Url = ''u'', Method = ''GET'', Headers = ''{}''\<rparr>,
            \<lparr>Id = 3, Name = ''c'', Url = ''u'', Method = ''GET'', Headers = ''{}''\<rparr>]"
proof -
  have "fst (Find \<lparr>tableName = ''endpoints''\<rparr> (Some \<lparr>QName = [], Take = 2, Skip = 1\<rparr>)
         \<lparr>table = [\<lparr>rid = 3, rname = ''c'', rurl = ''u'', rmethod = ''GET'', rheaders = ''{}''\<rparr>,
                   \<lparr>rid = 1, rname = ''a'', rurl = ''u'', rmethod = ''GET'', rheaders = ''{}''\<rparr>,
                   \<lparr>rid = 5, rname = ''e'', rurl = ''u'', rmethod = ''GET'', rheaders = ''{}''\<rparr>,
                   \<lparr>rid = 2, rname = ''b'', rurl = ''u'', rmethod = ''GET'', rheaders = ''{}''\<rparr>,
                   \<lparr>rid = 4, rname = ''d'', rurl = ''u'', rmethod = ''GET'', rheaders = ''{}''\<rparr>],
          txs = Map.empty, stmts = [], next_handle = 0, events = [], faults = (\<lambda>c. None), like_op = like_ascii\<rparr>)
     = ToEndpoints
         (map row_values
            (take (nat (Take \<lparr>QName = [], Take = 2, Skip = 1\<rparr>))
               (drop (nat (Skip \<lparr>QName = [], Take = 2, Skip = 1\<rparr>))
                  (sort_key rid
                     (filter (Find_selects like_ascii \<lparr>QName = [], Take = 2, Skip = 1\<rparr>)
                        (table \<lparr>table = [\<lparr>rid = 3, rname = ''c'', rurl = ''u'', rmethod = ''GET'', rheaders = ''{}''\<rparr>,
                   \<lparr>rid = 1, rname = ''a'', rurl = ''u'', rmethod = ''GET'', rheaders = ''{}''\<rparr>,
                   \<lparr>rid = 5, rname = ''e'', rurl = ''u'', rmethod = ''GET'', rheaders = ''{}''\<rparr>,
                   \<lparr>rid = 2, rname = ''b'', rurl = ''u'', rmethod = ''GET'', rheaders = ''{}''\<rparr>,
                   \<lparr>rid = 4, rname = ''d'', rurl = ''u'', rmethod = ''GET'', rheaders = ''{}''\<rparr>],
          txs = Map.empty, stmts = [], next_handle = 0, events = [], faults = (\<lambda>c. None), like_op = like_ascii\<rparr>))))))
         (Take \<lparr>QName = [], Take = 2, Skip = 1\<rparr>)"
    using Find_pagination [of "\<lparr>QName = [], Take = 2, Skip = 1\<rparr>"]
    by (simp add: healthy_def)
  also have "\<dots> = Inr [\<lparr>Id = 2, Name = ''b'', Url = ''u'', Method = ''GET'', Headers = ''{}''\<rparr>,
            \<lparr>Id = 3, Name = ''c'', Url = ''u'', Method = ''GET'', Headers = ''{}''\<rparr>]"
    by code_simp
  finally show ?thesis .
qed

text \<open>
  Claim C4. With a nil filter \<^verbatim>\<open>Find\<close> prepares and runs the statement over all rows, and
  then reads \<^verbatim>\<open>query.Take\<close> through the nil pointer: on a healthy store it ends in the panic,
  not in a sequence of entities.
\<close>

theorem Find_nil_filter:
  assumes "healthy s"
  shows "fst (Find r None s) = Inl NilDereference"
  using assms healthy_faults [of s] by (simp add: Find_nil_result)

theorem Find_nil_filter_witness:
  "fst (Find \<lparr>tableName = ''endpoints''\<rparr> None
         \<lparr>table = [], txs = Map.empty, stmts = [], next_handle = 0, events = [], faults = (\<lambda>c. None), like_op = like_ascii\<rparr>)
     = Inl NilDereference"
  using Find_nil_filter
          [of "\<lparr>table = [], txs = Map.empty, stmts = [], next_handle = 0, events = [], faults = (\<lambda>c. None), like_op = like_ascii\<rparr>"
              "\<lparr>tableName = ''endpoints''\<rparr>"]
  by (simp add: healthy_def)

text \<open>With a filter that is present and has neither a name pattern nor a take-count,
  \<^verbatim>\<open>Find\<close> returns all rows in the order of their identifiers; none, when there is none.\<close>

lemma Find_all_rows:
  assumes "healthy s" and "QName q = []" and "Take q \<le> 0"
    and "list_all (\<lambda>rw. 0 \<le> rid rw \<and> rid rw < 2 ^ 64) (table s)"
  shows "fst (Find r (Some q) s) = Inr (map endpoint_of (sort_key rid (table s)))"
    and "sorted (map (\<lambda>e. uint (Id e)) (map endpoint_of (sort_key rid (table s))))"
proof -
  have r: "list_all (\<lambda>rw. 0 \<le> rid rw \<and> rid rw < 2 ^ 64) (sort_key rid (table s))"
    using assms(4) by (simp add: list_all_iff)
  show "fst (Find r (Some q) s) = Inr (map endpoint_of (sort_key rid (table s)))"
    using assms(1,2,3) healthy_faults [of s] ToEndpoints_in_range [OF r, of "Take q"]
    by (simp add: Find_result Find_rows_def Find_window_def Find_selects_def [abs_def])
  have h: "map (\<lambda>e. uint (Id e)) (map endpoint_of (sort_key rid (table s))) = map rid (sort_key rid (table s))"
    using r by (auto simp: list_all_iff endpoint_of_def uint_word_of_int take_bit_int_eq_self)
  show "sorted (map (\<lambda>e. uint (Id e)) (map endpoint_of (sort_key rid (table s))))"
    unfolding h by (rule sorted_sort_key)
qed

section \<open>The statements of the other operations\<close>

lemma parse_sql_statements:
  "parse_sql t (endpointSelectQuery t @ '' WHERE id=? LIMIT 1'') = Some (Select IdEq False LimitOne)"
  "parse_sql t (endpointCountQuery t) = Some CountRows"
  "parse_sql t (endpointInsertQuery t endpointInsertValuesQuery) = Some InsertRow"
  "parse_sql t (endpointUpdateQuery t) = Some UpdateById"
  "parse_sql t (endpointDeleteQuery t @ '' WHERE id=?'') = Some DeleteById"
  by (simp_all add: parse_sql_select parse_select_tail_shapes)
     (simp_all add: parse_sql_def endpointCountQuery_def endpointInsertQuery_def
        endpointInsertValuesQuery_def endpointUpdateQuery_def endpointDeleteQuery_def
        parse_delete_tail_def)

lemma parse_sql_delete_in:
  "parse_sql t (endpointDeleteQuery t @ '' WHERE id IN ('' @ l @ '')'') =
     map_option DeleteIn (parse_id_list l)"
  by (simp add: parse_sql_def endpointDeleteQuery_def parse_delete_tail_def)

subsection \<open>Decimal numerals\<close>

lemma digit_val_digit: "d < 10 \<Longrightarrow> digit_val (char_of (48 + d)) = Some d"
  by (simp add: digit_val_def Let_def)

lemma digit_not_comma: "(d::nat) < 10 \<Longrightarrow> char_of (48 + d) \<noteq> CHR '',''"
proof
  assume d: "d < 10" and c: "char_of (48 + d) = CHR '',''"
  have "digit_val (CHR '','') = Some d" using digit_val_digit [OF d] c by simp
  then show False by (simp add: digit_val_def)
qed

lemma parse_digits_append:
  "parse_digits a (xs @ ys) = (case parse_digits a xs of None \<Rightarrow> None | Some b \<Rightarrow> parse_digits b ys)"
  by (induction xs arbitrary: a) (auto split: option.splits)

lemma show_nat_not_Nil: "show_nat n \<noteq> []"
  by (subst show_nat.simps) simp

lemma parse_digits_show_nat:
  "parse_digits a (show_nat n) = Some (a * 10 ^ length (show_nat n) + n)"
proof (induction n arbitrary: a rule: show_nat.induct)
  case (1 n)
  show ?case
  proof (cases "n < 10")
    case True
    then show ?thesis by (subst (1 2) show_nat.simps) (simp add: digit_val_digit)
  next
    case False
    have m: "n mod 10 < 10" by simp
    have "parse_digits a (show_nat n)
            = parse_digits a (show_nat (n div 10) @ [char_of (48 + n mod 10)])"
      using False by (subst show_nat.simps) simp
    also have "\<dots> = Some (10 * (a * 10 ^ length (show_nat (n div 10)) + n div 10) + n mod 10)"
      using "1.IH" [OF False] by (simp add: parse_digits_append digit_val_digit [OF m])
    also have "\<dots> = Some (a * 10 ^ length (show_nat n) + n)"
      using False by (subst (2) show_nat.simps) (simp add: algebra_simps)
    finally show ?thesis .
  qed
qed

lemma parse_nat_show_nat: "parse_nat (show_nat n) = Some n"
  using parse_digits_show_nat [of 0 n] by (simp add: parse_nat_def show_nat_not_Nil)

lemma show_nat_no_comma: "CHR '','' \<notin> set (show_nat n)"
proof (induction n rule: show_nat.induct)
  case (1 n)
  show ?case
  proof (cases "n < 10")
    case True
    then show ?thesis using digit_not_comma [of n] by (subst show_nat.simps) auto
  next
    case False
    then show ?thesis
      using "1.IH" digit_not_comma [of "n mod 10"] by (subst show_nat.simps) auto
  qed
qed



lemma split_items_last: "CHR '','' \<notin> set x \<Longrightarrow> split_items acc x = [acc @ x]"
proof (induction acc x rule: split_items.induct)
  case (1 acc)
  then show ?case by simp
next
  case (2 acc c)
  then show ?case by simp
next
  case (3 acc c d s)
  then show ?case by auto
qed

lemma split_items_item:
  "CHR '','' \<notin> set x \<Longrightarrow> split_items acc (x @ '', '' @ rest) = (acc @ x) # split_items [] rest"
proof (induction x arbitrary: acc)
  case Nil
  then show ?case by simp
next
  case (Cons c x)
  have c: "c \<noteq> CHR '',''" and x: "CHR '','' \<notin> set x"
    using Cons.prems by auto
  obtain d s where ds: "x @ '', '' @ rest = d # s"
    by (cases x) auto
  have "split_items acc ((c # x) @ '', '' @ rest) = split_items acc (c # d # s)"
    using ds by simp
  also have "\<dots> = split_items (acc @ [c]) (d # s)"
    using c by simp
  also have "\<dots> = split_items (acc @ [c]) (x @ '', '' @ rest)"
    using ds by simp
  also have "\<dots> = ((acc @ [c]) @ x) # split_items [] rest"
    using Cons.IH [OF x] .
  finally show ?case by simp
qed


lemma parse_items_join:
  "parse_items (split_items [] (JoinUintSlice (x # ids) '', '')) = Some (map uint (x # ids))"
proof (induction ids arbitrary: x)
  case Nil
  have "split_items [] (show_nat (unat x)) = [show_nat (unat x)]"
    using split_items_last [OF show_nat_no_comma, of "[]" "unat x"] by simp
  then show ?case by (simp add: parse_nat_show_nat)
next
  case (Cons y ys)
  have "split_items [] (show_nat (unat x) @ '', '' @ JoinUintSlice (y # ys) '', '')
          = show_nat (unat x) # split_items [] (JoinUintSlice (y # ys) '', '')"
    using split_items_item [OF show_nat_no_comma, of "[]" "unat x"] by simp
  then show ?case using Cons [of y] by (simp add: parse_nat_show_nat)
qed

lemma parse_sql_delete_many:
  assumes "ids \<noteq> []"
  shows "parse_sql t (endpointDeleteQuery t @ '' WHERE id IN ('' @ JoinUintSlice ids '', '' @ '')'') =
           Some (DeleteIn (map uint ids))"
proof -
  obtain x xs where i: "ids = x # xs" using assms by (cases ids) auto
  show ?thesis
    unfolding parse_sql_delete_in parse_id_list_def i parse_items_join by simp
qed

section \<open>What the mutating operations do to the rows\<close>

lemma DeleteMany_owned_run:
  assumes "ids \<noteq> []" and "healthy s"
  shows "fst (DeleteMany r ids None s) = None"
    and "table (snd (DeleteMany r ids None s)) = filter (\<lambda>rw. rid rw \<notin> set (map uint ids)) (table s)"
    and "filter is_statement_call (new_events s (snd (DeleteMany r ids None s)))
           = [EvPrepare (Suc (next_handle s))
                (endpointDeleteQuery (tableName r) @ '' WHERE id IN ('' @ JoinUintSlice ids '', '' @ '')''),
              EvExec (Suc (next_handle s)) []]"
  using assms healthy_faults [of s] parse_sql_delete_many [OF assms(1), of "tableName r"]
  by (simp_all add: DeleteMany_def store_calls run_exec_def new_events_def filter_map comp_def case_prod_beta)

lemma DeleteMany_borrowed_run:
  assumes "ids \<noteq> []" and "healthy s" and "txs s t = Some w"
  shows "fst (DeleteMany r ids (Some t) s) = None"
    and "table (snd (DeleteMany r ids (Some t) s)) = table s"
    and "txs (snd (DeleteMany r ids (Some t) s)) t = Some (filter (\<lambda>rw. rid rw \<notin> set (map uint ids)) w)"
    and "new_events s (snd (DeleteMany r ids (Some t) s))
           = [EvPrepare (next_handle s)
                (endpointDeleteQuery (tableName r) @ '' WHERE id IN ('' @ JoinUintSlice ids '', '' @ '')''),
              EvExec (next_handle s) []]"
  using assms healthy_faults [of s] parse_sql_delete_many [OF assms(1), of "tableName r"]
  by (simp_all add: DeleteMany_def store_calls run_exec_def new_events_def)


lemma update_noop:
  "list_all (\<lambda>rw. rid rw \<noteq> i) rs \<Longrightarrow> map (\<lambda>r. if rid r = i then f r else r) rs = rs"
  by (induction rs) auto

lemma Update_missing_owned:
  assumes "Id e \<noteq> 0" and "list_all (\<lambda>rw. rid rw \<noteq> uint (Id e)) (table s)"
  shows "table (snd (Update r (Some e) None s)) = table s"
    and "healthy s \<Longrightarrow> uint (Id e) < 2 ^ 63 \<Longrightarrow> fst (Update r (Some e) None s) = None"
  using assms healthy_faults [of s]
  by (auto simp: Update_def store_calls run_exec_def parse_sql_statements update_noop
        split: option.splits)

lemma Update_missing_borrowed:
  assumes "Id e \<noteq> 0" and "txs s t = Some w" and "list_all (\<lambda>rw. rid rw \<noteq> uint (Id e)) w"
  shows "table (snd (Update r (Some e) (Some t) s)) = table s"
    and "txs (snd (Update r (Some e) (Some t) s)) t = Some w"
    and "healthy s \<Longrightarrow> uint (Id e) < 2 ^ 63 \<Longrightarrow> fst (Update r (Some e) (Some t) s) = None"
  using assms healthy_faults [of s]
  by (auto simp: Update_def store_calls run_exec_def parse_sql_statements update_noop
        split: option.splits)

text \<open>An identifier with the high bit set is refused before the statement runs.\<close>

lemma Update_refused:
  assumes "Id e \<noteq> 0" and "healthy s" and "2 ^ 63 \<le> uint (Id e)"
  shows "fst (Update r (Some e) None s) = Some ArgumentRefused"
    and "table (snd (Update r (Some e) None s)) = table s"
    and "txs s t = Some w \<Longrightarrow> fst (Update r (Some e) (Some t) s) = Some ArgumentRefused"
    and "txs s t = Some w \<Longrightarrow> table (snd (Update r (Some e) (Some t) s)) = table s"
    and "txs s t = Some w \<Longrightarrow> txs (snd (Update r (Some e) (Some t) s)) t = Some w"
  using assms healthy_faults [of s]
  by (auto simp: Update_def store_calls parse_sql_statements split: option.splits)


lemma Create_owned_success:
  assumes "Create r (Some e) None s = (Inr i, s')"
  shows "i = word_of_int (next_rowid (table s))"
    and "next_rowid (table s) \<le> max_rowid"
    and "table s' = table s @ [\<lparr>rid = next_rowid (table s), rname = Name e, rurl = Url e,
                                 rmethod = Method e, rheaders = Headers e\<rparr>]"
    and "faults s' = faults s" and "faults s CallPrepare = None"
  using assms
  by (auto simp: Create_def store_calls run_exec_def parse_sql_statements
        split: option.splits if_splits)

lemma Create_borrowed_success:
  assumes "Create r (Some e) (Some t) s = (Inr i, s')" and "txs s t = Some w"
  shows "i = word_of_int (next_rowid w)"
    and "next_rowid w \<le> max_rowid"
    and "txs s' t = Some (w @ [\<lparr>rid = next_rowid w, rname = Name e, rurl = Url e,
                                 rmethod = Method e, rheaders = Headers e\<rparr>])"
    and "faults s' = faults s" and "faults s CallPrepare = None" and "table s' = table s"
  using assms
  by (auto simp: Create_def store_calls run_exec_def parse_sql_statements
        split: option.splits if_splits)

lemma tx_commit_success:
  assumes "tx_commit t s = (None, s')" and "txs s t = Some w"
  shows "table s' = w" and "faults s' = faults s"
  using assms by (auto simp: store_calls split: option.splits)

lemma Get_result:
  assumes "i \<noteq> 0" and "faults s CallPrepare = None" and "faults s CallQuery = None"
    and "uint i < 2 ^ 63"
  shows "fst (Get r i s) =
           ToEndpoint (Inr (case filter (\<lambda>rw. rid rw = uint i) (table s) of
                              [] \<Rightarrow> None | rw # _ \<Rightarrow> Some (row_values rw)))"
  using assms
  by (cases "filter (\<lambda>rw. rid rw = uint i) (table s)")
     (simp_all add: Get_def store_calls parse_sql_statements run_query_def)

lemma next_rowid_above: "rw \<in> set rs \<Longrightarrow> rid rw < next_rowid rs"
proof -
  assume a: "rw \<in> set rs"
  then have "rid rw \<le> Max (set (map rid rs))" by simp
  with a show ?thesis by (auto simp: next_rowid_def)
qed

lemma next_rowid_positive: "positive_ids rs \<Longrightarrow> 0 < next_rowid rs"
proof (cases rs)
  case Nil
  then show ?thesis by (simp add: next_rowid_def)
next
  case (Cons rw rs')
  assume "positive_ids rs"
  then have "0 < rid rw" using Cons by (simp add: positive_ids_def)
  moreover have "rid rw < next_rowid rs" using Cons next_rowid_above [of rw rs] by simp
  ultimately show ?thesis by simp
qed

lemma filter_new_row:
  "rid rw = next_rowid rs \<Longrightarrow> filter (\<lambda>x. rid x = next_rowid rs) (rs @ [rw]) = [rw]"
proof -
  assume r: "rid rw = next_rowid rs"
  have "filter (\<lambda>x. rid x = next_rowid rs) rs = []"
    using next_rowid_above [of _ rs] by (fastforce simp: filter_empty_conv)
  with r show ?thesis by simp
qed

lemma word_of_rowid:
  assumes "0 < n" and "n \<le> max_rowid"
  shows "uint (word_of_int n :: uint64) = n" and "0 < (word_of_int n :: uint64)"
proof -
  show u: "uint (word_of_int n :: uint64) = n"
    using assms by (simp add: uint_word_of_int take_bit_int_eq_self max_rowid_def)
  have "(word_of_int n :: uint64) \<noteq> 0"
  proof
    assume "(word_of_int n :: uint64) = 0"
    then have "uint (word_of_int n :: uint64) = 0" by simp
    with u assms(1) show False by simp
  qed
  then show "0 < (word_of_int n :: uint64)"
    by (simp add: word_greater_zero_iff)
qed

lemma Get_new_row:
  assumes "0 < next_rowid rs" and "next_rowid rs \<le> max_rowid"
    and "table s = rs @ [\<lparr>rid = next_rowid rs, rname = Name e, rurl = Url e,
                           rmethod = Method e, rheaders = Headers e\<rparr>]"
    and "faults s CallPrepare = None" and "faults s CallQuery = None"
  shows "fst (Get r (word_of_int (next_rowid rs)) s) = Inr (e\<lparr>Id := word_of_int (next_rowid rs)\<rparr>)"
proof -
  let ?i = "word_of_int (next_rowid rs) :: uint64"
  let ?rw = "\<lparr>rid = next_rowid rs, rname = Name e, rurl = Url e, rmethod = Method e, rheaders = Headers e\<rparr>"
  have u: "uint ?i = next_rowid rs" and p: "?i \<noteq> 0"
    using word_of_rowid [OF assms(1,2)] by auto
  have c: "uint ?i < 2 ^ 63"
    using u assms(2) by (simp add: max_rowid_def)
  have f: "filter (\<lambda>x. rid x = uint ?i) (table s) = [?rw]"
    unfolding u assms(3) by (rule filter_new_row) simp
  have "scan_endpoint (row_values ?rw) = Inr (endpoint_of ?rw)"
    using assms(1,2) by (simp add: scan_endpoint_row max_rowid_def)
  then show ?thesis
    using Get_result [OF p assms(4,5) c, of r] f
    by (simp add: ToEndpoint_def endpoint_of_def)
qed


text \<open>
  Claim C6. A \<^verbatim>\<open>Create\<close> that succeeds returns an identifier above 0, and \<^verbatim>\<open>Get\<close> of that
  identifier then returns the created entity, with the identifier filled in and name, URL,
  method and headers as given: at once when \<^verbatim>\<open>Create\<close> was called without a transaction, and
  once the caller has committed when it was called inside the caller's transaction. The rows
  that \<^verbatim>\<open>Create\<close> adds to have positive identifiers, as all rows of the table have.
\<close>

theorem Create_Get_round_trip:
  "(positive_ids (table s) \<and> Create r (Some e) None s = (Inr i, s') \<longrightarrow>
      0 < i \<and> (faults s CallQuery = None \<longrightarrow> fst (Get r i s') = Inr (e\<lparr>Id := i\<rparr>)))
   \<and> (txs s t = Some w \<and> positive_ids w \<and> Create r (Some e) (Some t) s = (Inr i, s')
        \<and> tx_commit t s' = (None, s'') \<longrightarrow>
      0 < i \<and> (faults s CallQuery = None \<longrightarrow> fst (Get r i s'') = Inr (e\<lparr>Id := i\<rparr>)))"
proof (intro conjI impI)
  assume a: "positive_ids (table s) \<and> Create r (Some e) None s = (Inr i, s')"
  note c = Create_owned_success [of r e s i s']
  have n: "0 < next_rowid (table s)" "next_rowid (table s) \<le> max_rowid"
    using a c(2) next_rowid_positive by auto
  show "0 < i"
    using a c(1) word_of_rowid(2) [OF n] by simp
  show "fst (Get r i s') = Inr (e\<lparr>Id := i\<rparr>)" if "faults s CallQuery = None"
    using a c that Get_new_row [OF n, of s' e r] by simp
next
  assume a: "txs s t = Some w \<and> positive_ids w \<and> Create r (Some e) (Some t) s = (Inr i, s')
               \<and> tx_commit t s' = (None, s'')"
  note c = Create_borrowed_success [of r e t s i s' w]
  have n: "0 < next_rowid w" "next_rowid w \<le> max_rowid"
    using a c(2) next_rowid_positive by auto
  show "0 < i"
    using a c(1) word_of_rowid(2) [OF n] by simp
  show "fst (Get r i s'') = Inr (e\<lparr>Id := i\<rparr>)" if "faults s CallQuery = None"
  proof -
    have "table s'' = w @ [\<lparr>rid = next_rowid w, rname = Name e, rurl = Url e,
                             rmethod = Method e, rheaders = Headers e\<rparr>]"
      and "faults s'' = faults s"
      using a c(3,4) tx_commit_success [of t s' s''] by auto
    then show ?thesis
      using a c(1,5) that Get_new_row [OF n, of s'' e r] by simp
  qed
qed

theorem Create_Get_round_trip_witness:
  "fst (Create \<lparr>tableName = ''endpoints''\<rparr>
          (Some \<lparr>Id = 0, Name = ''n'', Url = ''u'', Method = ''GET'', Headers = ''{}''\<rparr>) None
          \<lparr>table = [\<lparr>rid = 1, rname = ''a'', rurl = ''v'', rmethod = ''POST'', rheaders = ''{}''\<rparr>],
           txs = Map.empty, stmts = [], next_handle = 0, events = [], faults = (\<lambda>c. None), like_op = like_ascii\<rparr>) = Inr 2
   \<and> (0 :: uint64) < 2
   \<and> fst (Get \<lparr>tableName = ''endpoints''\<rparr> 2
          (snd (Create \<lparr>tableName = ''endpoints''\<rparr>
                  (Some \<lparr>Id = 0, Name = ''n'', Url = ''u'', Method = ''GET'', Headers = ''{}''\<rparr>) None
                  \<lparr>table = [\<lparr>rid = 1, rname = ''a'', rurl = ''v'', rmethod = ''POST'', rheaders = ''{}''\<rparr>],
                   txs = Map.empty, stmts = [], next_handle = 0, events = [], faults = (\<lambda>c. None), like_op = like_ascii\<rparr>)))
       = Inr \<lparr>Id = 2, Name = ''n'', Url = ''u'', Method = ''GET'', Headers = ''{}''\<rparr>"
proof -
  let ?R = "\<lparr>tableName = ''endpoints''\<rparr>"
  let ?E = "\<lparr>Id = 0, Name = ''n'', Url = ''u'', Method = ''GET'', Headers = ''{}''\<rparr>"
  let ?S = "\<lparr>table = [\<lparr>rid = 1, rname = ''a'', rurl = ''v'', rmethod = ''POST'', rheaders = ''{}''\<rparr>],
             txs = Map.empty, stmts = [], next_handle = 0, events = [], faults = (\<lambda>c. None), like_op = like_ascii\<rparr>"
  have c: "fst (Create ?R (Some ?E) None ?S) = Inr 2"
    by code_simp
  then have c': "Create ?R (Some ?E) None ?S = (Inr 2, snd (Create ?R (Some ?E) None ?S))"
    by (metis prod.collapse)
  have p: "positive_ids (table ?S)"
    by (simp add: positive_ids_def)
  have "0 < (2 :: uint64) \<and> fst (Get ?R 2 (snd (Create ?R (Some ?E) None ?S))) = Inr (?E\<lparr>Id := 2\<rparr>)"
    using Create_Get_round_trip [of ?S ?R ?E 2 "snd (Create ?R (Some ?E) None ?S)"] p c' by simp
  then show ?thesis using c by simp
qed

text \<open>
  Claim C7, amended. \<^verbatim>\<open>Update\<close> of an entity whose non-zero identifier matches no row leaves
  the rows as they are, whatever the store does; inside the caller's transaction it leaves the
  rows of the transaction as they are as well. On a healthy store it returns no error when the
  identifier is below \<open>2 ^ 63\<close>; an identifier of \<open>2 ^ 63\<close> or more, which \<^verbatim>\<open>database/sql\<close> does
  not pass to the driver, makes it return the conversion error, the rows unchanged.
\<close>

theorem Update_missing_row:
  assumes "Id e \<noteq> 0"
  shows "(list_all (\<lambda>rw. rid rw \<noteq> uint (Id e)) (table s) \<longrightarrow>
            table (snd (Update r (Some e) None s)) = table s
            \<and> (healthy s \<and> uint (Id e) < 2 ^ 63 \<longrightarrow> fst (Update r (Some e) None s) = None))
       \<and> (txs s t = Some w \<and> list_all (\<lambda>rw. rid rw \<noteq> uint (Id e)) w \<longrightarrow>
            table (snd (Update r (Some e) (Some t) s)) = table s
            \<and> txs (snd (Update r (Some e) (Some t) s)) t = Some w
            \<and> (healthy s \<and> uint (Id e) < 2 ^ 63 \<longrightarrow> fst (Update r (Some e) (Some t) s) = None))
       \<and> (healthy s \<and> 2 ^ 63 \<le> uint (Id e) \<longrightarrow>
            fst (Update r (Some e) None s) = Some ArgumentRefused
            \<and> table (snd (Update r (Some e) None s)) = table s
            \<and> (txs s t = Some w \<longrightarrow>
                 fst (Update r (Some e) (Some t) s) = Some ArgumentRefused
                 \<and> table (snd (Update r (Some e) (Some t) s)) = table s
                 \<and> txs (snd (Update r (Some e) (Some t) s)) t = Some w))"
  using Update_missing_owned [OF assms, of s r] Update_missing_borrowed [OF assms, of s t w r]
    Update_refused [OF assms]
  by blast

theorem Update_missing_row_witness:
  "table (snd (Update \<lparr>tableName = ''endpoints''\<rparr>
                 (Some \<lparr>Id = 9, Name = ''n'', Url = ''u'', Method = ''GET'', Headers = ''{}''\<rparr>) None
                 \<lparr>table = [\<lparr>rid = 1, rname = ''a'', rurl = ''v'', rmethod = ''POST'', rheaders = ''{}''\<rparr>],
                  txs = Map.empty, stmts = [], next_handle = 0, events = [], faults = (\<lambda>c. None),
                  like_op = like_ascii\<rparr>))
     = [\<lparr>rid = 1, rname = ''a'', rurl = ''v'', rmethod = ''POST'', rheaders = ''{}''\<rparr>]
   \<and> fst (Update \<lparr>tableName = ''endpoints''\<rparr>
            (Some \<lparr>Id = 9, Name = ''n'', Url = ''u'', Method = ''GET'', Headers = ''{}''\<rparr>) None
            \<lparr>table = [\<lparr>rid = 1, rname = ''a'', rurl = ''v'', rmethod = ''POST'', rheaders = ''{}''\<rparr>],
             txs = Map.empty, stmts = [], next_handle = 0, events = [], faults = (\<lambda>c. None),
             like_op = like_ascii\<rparr>) = None"
  using Update_missing_row
          [of "\<lparr>Id = 9, Name = ''n'', Url = ''u'', Method = ''GET'', Headers = ''{}''\<rparr>"
              "\<lparr>table = [\<lparr>rid = 1, rname = ''a'', rurl = ''v'', rmethod = ''POST'', rheaders = ''{}''\<rparr>],
                txs = Map.empty, stmts = [], next_handle = 0, events = [], faults = (\<lambda>c. None),
                like_op = like_ascii\<rparr>"
              "\<lparr>tableName = ''endpoints''\<rparr>" 0 "[]"]
  by (simp add: healthy_def)

theorem Update_missing_row_counterexample:
  "Id \<lparr>Id = 9223372036854775808, Name = ''n'', Url = ''u'', Method = ''GET'', Headers = ''{}''\<rparr> \<noteq> 0
   \<and> list_all (\<lambda>rw. rid rw \<noteq> uint (9223372036854775808 :: uint64))
        [\<lparr>rid = 1, rname = ''a'', rurl = ''v'', rmethod = ''POST'', rheaders = ''{}''\<rparr>]
   \<and> fst (Update \<lparr>tableName = ''endpoints''\<rparr>
            (Some \<lparr>Id = 9223372036854775808, Name = ''n'', Url = ''u'', Method = ''GET'', Headers = ''{}''\<rparr>)
            None
            \<lparr>table = [\<lparr>rid = 1, rname = ''a'', rurl = ''v'', rmethod = ''POST'', rheaders = ''{}''\<rparr>],
             txs = Map.empty, stmts = [], next_handle = 0, events = [], faults = (\<lambda>c. None),
             like_op = like_ascii\<rparr>)
       = Some ArgumentRefused"
  by code_simp

text \<open>
  Claim C8. On a healthy store \<^verbatim>\<open>DeleteMany\<close> of a non-empty list prepares one statement,
  \<^verbatim>\<open>DELETE FROM t WHERE id IN (...)\<close> with the identifiers of the list, executes it once, and
  returns no error; the rows left are exactly the rows whose identifier is not in the list,
  unchanged and in their order: in the table when it was called without a transaction, in the
  rows of the caller's transaction otherwise.
\<close>

theorem DeleteMany_effect:
  assumes "ids \<noteq> []" and "healthy s"
  shows "fst (DeleteMany r ids None s) = None
       \<and> table (snd (DeleteMany r ids None s)) = filter (\<lambda>rw. rid rw \<notin> set (map uint ids)) (table s)
       \<and> filter is_statement_call (new_events s (snd (DeleteMany r ids None s)))
           = [EvPrepare (Suc (next_handle s))
                (endpointDeleteQuery (tableName r) @ '' WHERE id IN ('' @ JoinUintSlice ids '', '' @ '')''),
              EvExec (Suc (next_handle s)) []]
       \<and> (txs s t = Some w \<longrightarrow>
            fst (DeleteMany r ids (Some t) s) = None
            \<and> table (snd (DeleteMany r ids (Some t) s)) = table s
            \<and> txs (snd (DeleteMany r ids (Some t) s)) t
                 = Some (filter (\<lambda>rw. rid rw \<notin> set (map uint ids)) w)
            \<and> new_events s (snd (DeleteMany r ids (Some t) s))
                 = [EvPrepare (next_handle s)
                      (endpointDeleteQuery (tableName r) @ '' WHERE id IN ('' @ JoinUintSlice ids '', '' @ '')''),
                    EvExec (next_handle s) []])"
  using DeleteMany_owned_run [OF assms, of r] DeleteMany_borrowed_run [OF assms, of t w r]
  by blast

theorem DeleteMany_effect_witness:
  "fst (DeleteMany \<lparr>tableName = ''endpoints''\<rparr> [1, 3, 12] None
          \<lparr>table = [\<lparr>rid = 1, rname = ''a'', rurl = ''u'', rmethod = ''GET'', rheaders = ''{}''\<rparr>,
                    \<lparr>rid = 2, rname = ''b'', rurl = ''u'', rmethod = ''GET'', rheaders = ''{}''\<rparr>,
                    \<lparr>rid = 3, rname = ''c'', rurl = ''u'', rmethod = ''GET'', rheaders = ''{}''\<rparr>],
           txs = Map.empty, stmts = [], next_handle = 0, events = [], faults = (\<lambda>c. None), like_op = like_ascii\<rparr>) = None
   \<and> table (snd (DeleteMany \<lparr>tableName = ''endpoints''\<rparr> [1, 3, 12] None
          \<lparr>table = [\<lparr>rid = 1, rname = ''a'', rurl = ''u'', rmethod = ''GET'', rheaders = ''{}''\<rparr>,
                    \<lparr>rid = 2, rname = ''b'', rurl = ''u'', rmethod = ''GET'', rheaders = ''{}''\<rparr>,
                    \<lparr>rid = 3, rname = ''c'', rurl = ''u'', rmethod = ''GET'', rheaders = ''{}''\<rparr>],
           txs = Map.empty, stmts = [], next_handle = 0, events = [], faults = (\<lambda>c. None), like_op = like_ascii\<rparr>))
       = [\<lparr>rid = 2, rname = ''b'', rurl = ''u'', rmethod = ''GET'', rheaders = ''{}''\<rparr>]
   \<and> filter is_statement_call
        (events (snd (DeleteMany \<lparr>tableName = ''endpoints''\<rparr> [1, 3, 12] None
          \<lparr>table = [\<lparr>rid = 1, rname = ''a'', rurl = ''u'', rmethod = ''GET'', rheaders = ''{}''\<rparr>,
                    \<lparr>rid = 2, rname = ''b'', rurl = ''u'', rmethod = ''GET'', rheaders = ''{}''\<rparr>,
                    \<lparr>rid = 3, rname = ''c'', rurl = ''u'', rmethod = ''GET'', rheaders = ''{}''\<rparr>],
           txs = Map.empty, stmts = [], next_handle = 0, events = [], faults = (\<lambda>c. None), like_op = like_ascii\<rparr>)))
       = [EvPrepare 1 ''DELETE FROM endpoints WHERE id IN (1, 3, 12)'', EvExec 1 []]"
proof -
  let ?R = "\<lparr>tableName = ''endpoints''\<rparr>"
  let ?S = "\<lparr>table = [\<lparr>rid = 1, rname = ''a'', rurl = ''u'', rmethod = ''GET'', rheaders = ''{}''\<rparr>,
                    \<lparr>rid = 2, rname = ''b'', rurl = ''u'', rmethod = ''GET'', rheaders = ''{}''\<rparr>,
                    \<lparr>rid = 3, rname = ''c'', rurl = ''u'', rmethod = ''GET'', rheaders = ''{}''\<rparr>],
           txs = Map.empty, stmts = [], next_handle = 0, events = [], faults = (\<lambda>c. None), like_op = like_ascii\<rparr>"
  have h: "healthy ?S" by (simp add: healthy_def)
  have "fst (DeleteMany ?R [1, 3, 12] None ?S) = None
        \<and> table (snd (DeleteMany ?R [1, 3, 12] None ?S))
            = filter (\<lambda>rw. rid rw \<notin> set (map uint [1, 3, 12 :: uint64])) (table ?S)"
    using DeleteMany_effect [of "[1, 3, 12]" ?S ?R] h by blast
  moreover have "filter (\<lambda>rw. rid rw \<notin> set (map uint [1, 3, 12 :: uint64])) (table ?S)
            = [\<lparr>rid = 2, rname = ''b'', rurl = ''u'', rmethod = ''GET'', rheaders = ''{}''\<rparr>]"
    by simp
  moreover have "filter is_statement_call (events (snd (DeleteMany ?R [1, 3, 12] None ?S)))
       = [EvPrepare 1 ''DELETE FROM endpoints WHERE id IN (1, 3, 12)'', EvExec 1 []]"
    by code_simp
  ultimately show ?thesis by simp
qed

section \<open>Statement handles\<close>

text \<open>
  Claim C9. A mutating operation never closes the statement it prepares; only resolving the
  transaction closes it. Called inside the caller's transaction, which it does not resolve,
  the operation therefore returns with the statement open whenever the prepare succeeded:
  not every statement prepared during the call is closed during the call. The read
  operations do close their statement on every path, and a mutating operation called without
  a transaction leaves none open (\<open>reads_release\<close> and the lemmas after it).
\<close>

theorem borrowed_statement_left_open:
  assumes "faults s CallPrepare = None" and "txs s t = Some w"
  shows "(Id e = 0 \<longrightarrow> \<not> all_closed (new_events s (snd (Create r (Some e) (Some t) s))))
       \<and> (Id e \<noteq> 0 \<longrightarrow> \<not> all_closed (new_events s (snd (Update r (Some e) (Some t) s))))
       \<and> (i \<noteq> 0 \<longrightarrow> \<not> all_closed (new_events s (snd (Delete r i (Some t) s))))
       \<and> (ids \<noteq> [] \<longrightarrow> \<not> all_closed (new_events s (snd (DeleteMany r ids (Some t) s))))"
proof (intro conjI impI)
  show "\<not> all_closed (new_events s (snd (Create r (Some e) (Some t) s)))" if "Id e = 0"
    using assms that
    by (auto simp: Create_def store_calls parse_sql_statements new_events_def all_closed_def
          split: option.splits sum.splits)
  show "\<not> all_closed (new_events s (snd (Update r (Some e) (Some t) s)))" if "Id e \<noteq> 0"
    using assms that
    by (auto simp: Update_def store_calls parse_sql_statements new_events_def all_closed_def
          split: option.splits sum.splits)
  show "\<not> all_closed (new_events s (snd (Delete r i (Some t) s)))" if "i \<noteq> 0"
    using assms that
    by (auto simp: Delete_def store_calls parse_sql_statements new_events_def all_closed_def
          split: option.splits sum.splits)
  show "\<not> all_closed (new_events s (snd (DeleteMany r ids (Some t) s)))" if "ids \<noteq> []"
    using assms that parse_sql_delete_many [OF that, of "tableName r"]
    by (auto simp: DeleteMany_def store_calls new_events_def all_closed_def
          split: option.splits sum.splits)
qed

theorem borrowed_statement_left_open_witness:
  "\<not> all_closed
       (new_events
          \<lparr>table = [], txs = [0 \<mapsto> []], stmts = [], next_handle = 1, events = [EvBegin 0],
           faults = (\<lambda>c. None), like_op = like_ascii\<rparr>
          (snd (Create \<lparr>tableName = ''endpoints''\<rparr>
                  (Some \<lparr>Id = 0, Name = ''n'', Url = ''u'', Method = ''GET'', Headers = ''{}''\<rparr>) (Some 0)
                  \<lparr>table = [], txs = [0 \<mapsto> []], stmts = [], next_handle = 1, events = [EvBegin 0],
                   faults = (\<lambda>c. None), like_op = like_ascii\<rparr>)))
   \<and> stmts (snd (Create \<lparr>tableName = ''endpoints''\<rparr>
                  (Some \<lparr>Id = 0, Name = ''n'', Url = ''u'', Method = ''GET'', Headers = ''{}''\<rparr>) (Some 0)
                  \<lparr>table = [], txs = [0 \<mapsto> []], stmts = [], next_handle = 1, events = [EvBegin 0],
                   faults = (\<lambda>c. None), like_op = like_ascii\<rparr>))
       = [(1, InsertRow, Some 0)]
   \<and> fst (Create \<lparr>tableName = ''endpoints''\<rparr>
                  (Some \<lparr>Id = 0, Name = ''n'', Url = ''u'', Method = ''GET'', Headers = ''{}''\<rparr>) (Some 0)
                  \<lparr>table = [], txs = [0 \<mapsto> []], stmts = [], next_handle = 1, events = [EvBegin 0],
                   faults = (\<lambda>c. None), like_op = like_ascii\<rparr>) = Inr 1"
proof (intro conjI)
  show "\<not> all_closed
       (new_events
          \<lparr>table = [], txs = [0 \<mapsto> []], stmts = [], next_handle = 1, events = [EvBegin 0],
           faults = (\<lambda>c. None), like_op = like_ascii\<rparr>
          (snd (Create \<lparr>tableName = ''endpoints''\<rparr>
                  (Some \<lparr>Id = 0, Name = ''n'', Url = ''u'', Method = ''GET'', Headers = ''{}''\<rparr>) (Some 0)
                  \<lparr>table = [], txs = [0 \<mapsto> []], stmts = [], next_handle = 1, events = [EvBegin 0],
                   faults = (\<lambda>c. None), like_op = like_ascii\<rparr>)))"
    using borrowed_statement_left_open
            [of "\<lparr>table = [], txs = [0 \<mapsto> []], stmts = [], next_handle = 1, events = [EvBegin 0],
                   faults = (\<lambda>c. None), like_op = like_ascii\<rparr>" 0 "[]"
                "\<lparr>Id = 0, Name = ''n'', Url = ''u'', Method = ''GET'', Headers = ''{}''\<rparr>"
                "\<lparr>tableName = ''endpoints''\<rparr>"]
    by simp
qed code_simp+

text \<open>\<^verbatim>\<open>Get\<close>, \<^verbatim>\<open>Find\<close> and \<^verbatim>\<open>Count\<close> release their statement, whatever the store does.\<close>

lemma reads_release:
  "all_closed (new_events s (snd (Get r i s)))"
  "all_closed (new_events s (snd (Find r query s)))"
  "all_closed (new_events s (snd (Count r s)))"
  by (auto simp: Get_def Find_def Count_def store_calls new_events_def all_closed_def
        split: option.splits sum.splits prod.splits)

text \<open>Called without a transaction, a mutating operation leaves no statement open that was
  not open before: resolving the transaction it began closes the statement it prepared.\<close>

lemma Create_owned_release: "set (stmts (snd (Create r e None s))) \<subseteq> set (stmts s)"
  by (auto simp: Create_def store_calls split: option.splits sum.splits prod.splits)

lemma Update_owned_release: "set (stmts (snd (Update r e None s))) \<subseteq> set (stmts s)"
  by (auto simp: Update_def store_calls split: option.splits sum.splits prod.splits)

lemma Delete_owned_release: "set (stmts (snd (Delete r i None s))) \<subseteq> set (stmts s)"
  by (auto simp: Delete_def store_calls split: option.splits sum.splits prod.splits)

lemma DeleteMany_owned_release: "set (stmts (snd (DeleteMany r ids None s))) \<subseteq> set (stmts s)"
  by (auto simp: DeleteMany_def store_calls split: option.splits sum.splits prod.splits)

section \<open>Positive identifiers\<close>

lemma run_exec_positive:
  assumes "run_exec q args rs = Inr (res, rs')" and "positive_ids rs"
  shows "positive_ids rs'"
proof (cases q)
  case InsertRow
  then show ?thesis
    using assms next_rowid_positive [OF assms(2)]
    by (auto simp: run_exec_def positive_ids_def Let_def split: list.splits option.splits if_splits)
next
  case UpdateById
  then show ?thesis
    using assms
    by (auto simp: run_exec_def positive_ids_def set_fields_def list_all_iff
          split: list.splits option.splits if_splits)
next
  case DeleteById
  then show ?thesis
    using assms
    by (auto simp: run_exec_def positive_ids_def list_all_iff split: list.splits option.splits)
next
  case (DeleteIn ids)
  then show ?thesis
    using assms by (auto simp: run_exec_def positive_ids_def list_all_iff split: if_splits)
qed (use assms in \<open>auto simp: run_exec_def\<close>)

lemma step_positive:
  assumes "store_positive s"
  shows "store_positive (snd (db_begin s))"
    and "store_positive (snd (tx_commit t s))"
    and "store_positive (snd (tx_rollback t s))"
    and "store_positive (snd (prepare tbl ow q s))"
    and "store_positive (snd (stmt_exec k args s))"
    and "store_positive (snd (stmt_query k args s))"
    and "store_positive (stmt_close k s)"
  using assms run_exec_positive
  by (auto simp: store_positive_def store_calls split: option.splits sum.splits prod.splits if_splits)



lemma coordinator_positive:
  assumes "store_positive s"
  shows "store_positive (snd (TryToBegin tx s))"
    and "store_positive (snd (TryToCommit t closeTx s))"
    and "store_positive (snd (TryToRollback t err closeTx s))"
  using assms step_positive(1,2,3) [OF assms]
  by (auto simp: TryToBegin_def TryToCommit_def TryToRollback_def case_prod_beta
        split: option.splits sum.splits)

text \<open>Every operation of the repository keeps the identifiers positive, in the table and in
  the rows of every open transaction.\<close>

lemma Update_keeps_positive:
  "store_positive s \<Longrightarrow> store_positive (snd (Update r e tx s))"
  by (auto simp: Update_def tx_prepare_def case_prod_beta coordinator_positive step_positive
        split: option.splits sum.splits)

lemma Create_keeps_positive:
  "store_positive s \<Longrightarrow> store_positive (snd (Create r e tx s))"
  by (auto simp: Create_def tx_prepare_def case_prod_beta coordinator_positive step_positive
        split: option.splits sum.splits)

lemma Delete_keeps_positive:
  "store_positive s \<Longrightarrow> store_positive (snd (Delete r i tx s))"
  by (auto simp: Delete_def tx_prepare_def case_prod_beta coordinator_positive step_positive
        split: option.splits sum.splits)

lemma DeleteMany_keeps_positive:
  "store_positive s \<Longrightarrow> store_positive (snd (DeleteMany r ids tx s))"
  by (auto simp: DeleteMany_def tx_prepare_def case_prod_beta coordinator_positive step_positive
        split: option.splits sum.splits)

lemma reads_keep_positive:
  assumes "store_positive s"
  shows "store_positive (snd (Get r i s))"
    and "store_positive (snd (Find r query s))"
    and "store_positive (snd (Count r s))"
  using assms
  by (auto simp: Get_def Find_def Count_def db_prepare_def stmt_query_row_def case_prod_beta
        step_positive split: option.splits sum.splits)

lemma empty_store_positive:
  "store_positive \<lparr>table = [], txs = Map.empty, stmts = [], next_handle = 0, events = [], faults = f, like_op = lk\<rparr>"
  by (simp add: store_positive_def positive_ids_def)

end
